theory Spec2Isabelle
  imports Complex_Main "HOL-Library.Char_ord" "HOL-Library.List_Lexorder"
begin

section \<open>JavaScript values\<close>

text \<open>
  A JavaScript number is an IEEE double. The client never computes with numbers, it only
  compares them, and comparison of doubles is exact; so a finite number is modelled by the
  real it denotes, next to the three special values. Positive and negative zero compare
  equal and are both \<open>Fin 0\<close>.
\<close>

datatype jsnum = NaN | NegInf | Fin real | PosInf

text \<open>
  The values that occur in the records of this program: \<open>undefined\<close>, \<open>null\<close>,
  numbers and strings. A string is a list of code units below 256.
\<close>

datatype jsval = Undefined | Null | Num jsnum | Str string

text \<open>
  An object is a finite map from property names to values; a property that is absent has
  no entry, and reading it gives \<open>undefined\<close>. The order of the properties is not
  modelled.
\<close>

type_synonym jsobj = "string \<rightharpoonup> jsval"

definition get :: "jsobj \<Rightarrow> string \<Rightarrow> jsval" where
  "get obj k = (case obj k of None \<Rightarrow> Undefined | Some v \<Rightarrow> v)"

subsection \<open>Comparison of numbers\<close>

text \<open>\<open>a < b\<close> on numbers: false as soon as one side is \<open>NaN\<close>.\<close>

fun num_lt :: "jsnum \<Rightarrow> jsnum \<Rightarrow> bool" where
  "num_lt (Fin a) (Fin b) = (a < b)"
| "num_lt (Fin a) PosInf = True"
| "num_lt NegInf (Fin b) = True"
| "num_lt NegInf PosInf = True"
| "num_lt _ _ = False"

text \<open>\<open>a == b\<close> on numbers: \<open>NaN\<close> is equal to nothing, itself included.\<close>

definition num_eq :: "jsnum \<Rightarrow> jsnum \<Rightarrow> bool" where
  "num_eq a b = (a \<noteq> NaN \<and> a = b)"

text \<open>\<open>a <= b\<close> on numbers.\<close>

definition num_le :: "jsnum \<Rightarrow> jsnum \<Rightarrow> bool" where
  "num_le a b = (num_lt a b \<or> num_eq a b)"

text \<open>A number \<open>v\<close> lies in the closed range from \<open>lo\<close> to \<open>hi\<close>.\<close>

definition in_range :: "jsnum \<Rightarrow> jsnum \<Rightarrow> jsnum \<Rightarrow> bool" where
  "in_range v lo hi = (num_le lo v \<and> num_le v hi)"

text \<open>The same for values: only a number can lie in a range of numbers.\<close>

fun val_in_range :: "jsval \<Rightarrow> jsval \<Rightarrow> jsval \<Rightarrow> bool" where
  "val_in_range (Num v) (Num lo) (Num hi) = in_range v lo hi"
| "val_in_range _ _ _ = False"

subsection \<open>Coercing operators\<close>

text \<open>
  The operators \<open>==\<close>, \<open>>\<close> and \<open><\<close> of the source coerce their operands. When a
  string meets a number the string is converted by the runtime's string-to-number
  conversion, which is no part of this program: it is the parameter \<open>sn\<close> of every
  function that compares values, and every theorem holds for any such conversion.
\<close>

type_synonym str_num = "string \<Rightarrow> jsnum"

fun to_number :: "str_num \<Rightarrow> jsval \<Rightarrow> jsnum" where
  "to_number sn Undefined = NaN"
| "to_number sn Null = Fin 0"
| "to_number sn (Num n) = n"
| "to_number sn (Str s) = sn s"

text \<open>\<open>a == b\<close>.\<close>

fun loose_eq :: "str_num \<Rightarrow> jsval \<Rightarrow> jsval \<Rightarrow> bool" where
  "loose_eq sn Undefined Undefined = True"
| "loose_eq sn Undefined Null = True"
| "loose_eq sn Null Undefined = True"
| "loose_eq sn Null Null = True"
| "loose_eq sn (Num a) (Num b) = num_eq a b"
| "loose_eq sn (Str s) (Str t) = (s = t)"
| "loose_eq sn (Num a) (Str t) = num_eq a (sn t)"
| "loose_eq sn (Str s) (Num b) = num_eq (sn s) b"
| "loose_eq sn _ _ = False"

text \<open>
  \<open>a < b\<close>: two strings are compared code unit by code unit, anything else as numbers.
\<close>

fun js_lt :: "str_num \<Rightarrow> jsval \<Rightarrow> jsval \<Rightarrow> bool" where
  "js_lt sn (Str s) (Str t) = (s < t)"
| "js_lt sn a b = num_lt (to_number sn a) (to_number sn b)"

text \<open>\<open>a > b\<close>.\<close>

definition js_gt :: "str_num \<Rightarrow> jsval \<Rightarrow> jsval \<Rightarrow> bool" where
  "js_gt sn a b = js_lt sn b a"

section \<open>The console\<close>

text \<open>
  What \<open>console.log\<close> and \<open>console.warn\<close> print, one constructor for each call of
  the source, with the values the message is formatted from.
\<close>

datatype console_msg =
    Warn_undefined string jsval
  | Warn_exceeds string jsval jsval
  | Warn_less string jsval jsval
  | Warn_retry nat
  | Log_motor_limits "jsobj list"
  | Log_target_list "jsobj list"
  | Log_motor_fail string
  | Log_error
  | Log_initializing
  | Log_init_ok

section \<open>RobotBase.cover_param\<close>

text \<open>
  The three tests of the source in their order, each on the value the one before it
  left. The result is the warnings printed and the value returned.
\<close>

definition cover_param ::
  "str_num \<Rightarrow> jsval \<Rightarrow> string \<Rightarrow> jsval \<Rightarrow> jsval \<Rightarrow> console_msg list \<times> jsval" where
  "cover_param sn val name minThreshold maxThreshold =
     (let (w1, v1) = (if loose_eq sn val Undefined
                      then ([Warn_undefined name val], Num (Fin 0)) else ([], val));
          (w2, v2) = (if js_gt sn v1 maxThreshold
                      then ([Warn_exceeds name v1 maxThreshold], maxThreshold) else ([], v1));
          (w3, v3) = (if js_lt sn v2 minThreshold
                      then ([Warn_less name v2 minThreshold], minThreshold) else ([], v2))
      in (w1 @ w2 @ w3, v3))"

section \<open>The connection\<close>

text \<open>
  class \<open>Motor\<close> (human.ts): the joint number, its side and the desired angle. The
  angle is a value, not a number: a caller may leave it out, which is the case the first
  test of \<open>cover_param\<close> is there for.
\<close>

record Motor =
  no :: string
  orientation :: string
  angle :: jsval

text \<open>
  The message of the streaming channel, \<open>{command: c, data: {command: d}}\<close>, where
  \<open>d\<close> is a list of objects (\<open>move_joint\<close>) or one object (\<open>enable_motor\<close>,
  \<open>disable_motor\<close>).
\<close>

datatype payload = Command_list "jsobj list" | Command_obj jsobj

record envelope =
  command :: string
  data :: payload

datatype error = Max_retry_reached | Request_failed

text \<open>
  The callbacks the source hands to \<open>setTimeout\<close>:
  \<open>() => this.websocket_send(message)\<close>, and \<open>() => this.move_joint(args)\<close> in class
  \<open>Human\<close> and in class \<open>Motor\<close>.
\<close>

datatype task = Resend envelope | Redispatch "Motor list" | Motor_redispatch "Motor list"

text \<open>
  The state of one connection (\<open>RobotBase\<close> with the fields \<open>Human\<close> adds):
  \<open>ready\<close> is the test \<open>this.ws && this.ws.readyState === 1\<close>; \<open>wire\<close> is what
  \<open>ws.send\<close> was given, in order (the envelope stands for its JSON text); \<open>timers\<close>
  are the pending \<open>setTimeout\<close> callbacks with the time in ms at which each is due,
  \<open>now\<close> the clock they are measured against.
\<close>

record robot =
  ready :: bool
  retry_count :: nat
  motor_limits :: "jsobj list"
  wire :: "envelope list"
  now :: nat
  timers :: "(nat \<times> task) list"
  console :: "console_msg list"

definition setTimeout :: "task \<Rightarrow> nat \<Rightarrow> robot \<Rightarrow> robot" where
  "setTimeout cb ms st = st\<lparr>timers := timers st @ [(now st + ms, cb)]\<rparr>"

definition console_out :: "console_msg list \<Rightarrow> robot \<Rightarrow> robot" where
  "console_out ms st = st\<lparr>console := console st @ ms\<rparr>"

subsection \<open>RobotBase.websocket_send\<close>

text \<open>\<open>Inl\<close> is the \<open>throw\<close> of the source.\<close>

definition websocket_send :: "envelope \<Rightarrow> robot \<Rightarrow> error + robot" where
  "websocket_send message st =
     (if ready st then Inr (st\<lparr>wire := wire st @ [message], retry_count := 0\<rparr>)
      else if retry_count st = 5 then Inl Max_retry_reached
      else
        let st1 = st\<lparr>retry_count := retry_count st + 1\<rparr>;
            st2 = console_out [Warn_retry (retry_count st1)] st1
        in Inr (setTimeout (Resend message) 1000 st2))"

subsection \<open>Human.move_joint\<close>

text \<open>Step 1: \<open>{no: motor.no, orientation: motor.orientation, angle: motor.angle}\<close>.\<close>

definition motor_obj :: "Motor \<Rightarrow> jsobj" where
  "motor_obj motor =
     [''no'' \<mapsto> Str (no motor), ''orientation'' \<mapsto> Str (orientation motor),
      ''angle'' \<mapsto> angle motor]"

text \<open>The test of the inner loop of the join.\<close>

definition same_joint :: "str_num \<Rightarrow> jsobj \<Rightarrow> jsobj \<Rightarrow> bool" where
  "same_joint sn item1 item2 =
     (loose_eq sn (get item1 ''no'') (get item2 ''no'') \<and>
      loose_eq sn (get item1 ''orientation'') (get item2 ''orientation''))"

text \<open>
  The nested \<open>forEach\<close>: for each motor in order, for each limit record in order, the
  spread \<open>{...item1, ...item2}\<close> of every pair that passes the test. In the spread the
  properties of \<open>item2\<close> win.
\<close>

definition join_limits :: "str_num \<Rightarrow> jsobj list \<Rightarrow> jsobj list \<Rightarrow> jsobj list" where
  "join_limits sn motors limits =
     concat (map (\<lambda>item1. map (\<lambda>item2. item1 ++ item2)
                              (filter (same_joint sn item1) limits)) motors)"

text \<open>The body of the second loop: clamp the angle, then the three \<open>delete\<close>s.\<close>

definition clamp_motor :: "str_num \<Rightarrow> jsobj \<Rightarrow> console_msg list \<times> jsobj" where
  "clamp_motor sn motor =
     (let (w, a) = cover_param sn (get motor ''angle'') ''angle''
                     (get motor ''min_angle'') (get motor ''max_angle'')
      in (w, (motor(''angle'' \<mapsto> a))
               (''min_angle'' := None, ''max_angle'' := None, ''ip'' := None)))"

fun clamp_all :: "str_num \<Rightarrow> jsobj list \<Rightarrow> console_msg list \<times> jsobj list" where
  "clamp_all sn [] = ([], [])"
| "clamp_all sn (motor # rest) =
     (let (w, m) = clamp_motor sn motor; (ws, ms) = clamp_all sn rest
      in (w @ ws, m # ms))"

definition move_joint :: "str_num \<Rightarrow> Motor list \<Rightarrow> robot \<Rightarrow> error + robot" where
  "move_joint sn args st =
     (let motors = map motor_obj args;
          st1 = console_out [Log_motor_limits (motor_limits st)] st
      in if length (motor_limits st1) = 0
         then Inr (setTimeout (Redispatch args) 500 st1)
         else
           let target_list = join_limits sn motors (motor_limits st1)
           in if length target_list > 0
              then
                let (w, target_list') = clamp_all sn target_list;
                    st2 = console_out (w @ [Log_target_list target_list']) st1
                in websocket_send
                     \<lparr>command = ''move_joint'', data = Command_list target_list'\<rparr> st2
              else Inr st1)"

subsection \<open>Motor.move_joint\<close>

text \<open>
  The \<open>move_joint\<close> of class \<open>Motor\<close>, the client for single motors: the code of
  \<open>Human.move_joint\<close> without its two calls of \<open>console.log\<close>. Its batch is a list
  of \<open>MotorScheme\<close>, which has the fields of \<open>Motor\<close>.
\<close>

definition Motor_move_joint :: "str_num \<Rightarrow> Motor list \<Rightarrow> robot \<Rightarrow> error + robot" where
  "Motor_move_joint sn args st =
     (let motors = map motor_obj args
      in if length (motor_limits st) = 0
         then Inr (setTimeout (Motor_redispatch args) 500 st)
         else
           let target_list = join_limits sn motors (motor_limits st)
           in if length target_list > 0
              then
                let (w, target_list') = clamp_all sn target_list;
                    st2 = console_out w st
                in websocket_send
                     \<lparr>command = ''move_joint'', data = Command_list target_list'\<rparr> st2
              else Inr st)"

subsection \<open>Events\<close>

text \<open>
  The constructors: the channel is not open yet, the limit cache is empty and the request
  for the limit table is under way.
\<close>

definition Human_new :: robot where
  "Human_new =
     \<lparr>ready = False, retry_count = 0, motor_limits = [], wire = [], now = 0, timers = [],
      console = [Log_initializing]\<rparr>"

text \<open>\<open>ws.onopen\<close>: the channel is open from now on.\<close>

definition ws_onopen :: "robot \<Rightarrow> robot" where
  "ws_onopen st = console_out [Log_init_ok] (st\<lparr>ready := True\<rparr>)"

text \<open>
  The two continuations of \<open>get_motor_limit_list()\<close> in the constructor: \<open>then\<close>
  stores the table as it came, \<open>catch\<close> prints the error.
\<close>

fun motor_limit_list_result :: "error + jsobj list \<Rightarrow> robot \<Rightarrow> robot" where
  "motor_limit_list_result (Inr table) st = st\<lparr>motor_limits := table\<rparr>"
| "motor_limit_list_result (Inl e) st = console_out [Log_error] st"

text \<open>
  The event loop runs the pending callback that is due first (of two due at the same
  time, the one set first), at the time it is due. \<open>Inl\<close> is an error thrown by the
  callback, which nothing catches.
\<close>

fun earliest :: "(nat \<times> task) list \<Rightarrow> (nat \<times> task) option" where
  "earliest [] = None"
| "earliest (t # ts) =
     (case earliest ts of
        None \<Rightarrow> Some t
      | Some u \<Rightarrow> if fst t \<le> fst u then Some t else Some u)"

fun run_task :: "str_num \<Rightarrow> task \<Rightarrow> robot \<Rightarrow> error + robot" where
  "run_task sn (Resend message) st = websocket_send message st"
| "run_task sn (Redispatch args) st = move_joint sn args st"
| "run_task sn (Motor_redispatch args) st = Motor_move_joint sn args st"

definition fire :: "str_num \<Rightarrow> robot \<Rightarrow> error + robot" where
  "fire sn st =
     (case earliest (timers st) of
        None \<Rightarrow> Inr st
      | Some (due, cb) \<Rightarrow>
          run_task sn cb
            (st\<lparr>now := max (now st) due, timers := remove1 (due, cb) (timers st)\<rparr>))"

text \<open>\<open>n\<close> callbacks one after the other, stopping at the first error.\<close>

fun fire_n :: "str_num \<Rightarrow> nat \<Rightarrow> robot \<Rightarrow> error + robot" where
  "fire_n sn 0 st = Inr st"
| "fire_n sn (Suc n) st =
     (case fire sn st of Inl e \<Rightarrow> Inl e | Inr st' \<Rightarrow> fire_n sn n st')"

subsection \<open>Motor.enable_motor and Motor.disable_motor\<close>

text \<open>
  \<open>parseInt\<close> with no radix: leading white space is skipped, then an optional sign,
  then an optional \<open>0x\<close> that makes the radix 16, then the longest run of digits of the
  radix; with no digit the result is \<open>NaN\<close>. The runtime rounds the integer to a double;
  the model keeps the integer, which the only use of the result, the comparison with 8,
  cannot tell apart (rounding is monotone and leaves 8 and 9 as they are).
\<close>

definition is_white_space :: "char \<Rightarrow> bool" where
  "is_white_space c = ((of_char c :: nat) \<in> {9, 10, 11, 12, 13, 32, 160})"

definition digit_of :: "char \<Rightarrow> nat option" where
  "digit_of c =
     (let n = (of_char c :: nat)
      in if 48 \<le> n \<and> n \<le> 57 then Some (n - 48)
         else if 97 \<le> n \<and> n \<le> 122 then Some (n - 87)
         else if 65 \<le> n \<and> n \<le> 90 then Some (n - 55)
         else None)"

definition is_digit :: "nat \<Rightarrow> char \<Rightarrow> bool" where
  "is_digit R c = (case digit_of c of None \<Rightarrow> False | Some d \<Rightarrow> d < R)"

definition math_int :: "nat \<Rightarrow> string \<Rightarrow> nat" where
  "math_int R Z = foldl (\<lambda>acc c. acc * R + (case digit_of c of None \<Rightarrow> 0 | Some d \<Rightarrow> d)) 0 Z"

definition parseInt :: "string \<Rightarrow> jsnum" where
  "parseInt string =
     (let S = dropWhile is_white_space string;
          (sign, S1) = (case S of
                          [] \<Rightarrow> (1, S)
                        | c # r \<Rightarrow> if c = CHR ''-'' then (- 1, r)
                                   else if c = CHR ''+'' then (1, r) else (1, S));
          (R, S2) = (if take 2 S1 = ''0x'' \<or> take 2 S1 = ''0X''
                     then (16, drop 2 S1) else (10, S1));
          Z = takeWhile (is_digit R) S2
      in if Z = [] then NaN else Fin (real_of_int (sign * int (math_int R Z))))"

text \<open>
  The test \<open>parseInt(no) > 8\<close> compares two numbers. The parameters are named
  \<open>mno\<close> and \<open>side\<close> for the source's \<open>no\<close> and \<open>orientation\<close>.
\<close>

definition motor_ref :: "string \<Rightarrow> string \<Rightarrow> jsobj" where
  "motor_ref mno side = [''no'' \<mapsto> Str mno, ''orientation'' \<mapsto> Str side]"

definition enable_motor :: "string \<Rightarrow> string \<Rightarrow> robot \<Rightarrow> error + robot" where
  "enable_motor mno side st =
     (if num_lt (Fin 8) (parseInt mno) then Inr (console_out [Log_motor_fail mno] st)
      else websocket_send
             \<lparr>command = ''enable_motor'', data = Command_obj (motor_ref mno side)\<rparr> st)"

definition disable_motor :: "string \<Rightarrow> string \<Rightarrow> robot \<Rightarrow> error + robot" where
  "disable_motor mno side st =
     (if num_lt (Fin 8) (parseInt mno) then Inr (console_out [Log_motor_fail mno] st)
      else websocket_send
             \<lparr>command = ''disable_motor'', data = Command_obj (motor_ref mno side)\<rparr> st)"

section \<open>RobotBase.http_request\<close>

text \<open>
  A request configuration is an object; its values are numbers (\<open>timeout\<close>), strings
  (\<open>method\<close>, \<open>url\<close>, \<open>baseURL\<close>) and objects (\<open>params\<close>, \<open>data\<close>).
\<close>

datatype cfg_val = Cfg_num jsnum | Cfg_str string | Cfg_obj jsobj

type_synonym request_config = "string \<rightharpoonup> cfg_val"

text \<open>
  What the endpoint does with one request: it answers after some ms, with a success status
  or without, it refuses the connection, or it never answers. The network is what the
  endpoint does with its first request, its second, and so on.
\<close>

datatype endpoint = Responds real bool "jsobj list" | Refuses | Never_responds

type_synonym network = "nat \<Rightarrow> endpoint"

datatype transport_error = Timeout_error | Transport_failure

text \<open>
  How the promise of a request ends: settled so many ms after the request was issued,
  fulfilled with the data (\<open>Inr\<close>) or rejected (\<open>Inl\<close>), or pending for ever.
\<close>

datatype outcome = Settles real "transport_error + jsobj list" | Pending

text \<open>
  Modelled from the spec: \<open>axios.request\<close>, the call of the request library, which is no
  code of this repository. By the specification a request/response call returns the
  parsed response or fails on timeout, connection refusal or non-success status, and the
  transport does not retry. The timeout in force is the \<open>timeout\<close> of the configuration
  when that is a positive number of ms; with any other value, or none, there is no
  timeout. One call is one request to the endpoint: the result is the outcome and the
  number of requests the endpoint has received by then.
\<close>

definition request_timeout :: "request_config \<Rightarrow> real option" where
  "request_timeout cfg =
     (case cfg ''timeout'' of
        Some (Cfg_num (Fin t)) \<Rightarrow> if 0 < t then Some t else None
      | _ \<Rightarrow> None)"

fun settle :: "real option \<Rightarrow> endpoint \<Rightarrow> outcome" where
  "settle None Never_responds = Pending"
| "settle (Some t) Never_responds = Settles t (Inl Timeout_error)"
| "settle limit Refuses = Settles 0 (Inl Transport_failure)"
| "settle None (Responds d ok body) =
     Settles d (if ok then Inr body else Inl Transport_failure)"
| "settle (Some t) (Responds d ok body) =
     (if t < d then Settles t (Inl Timeout_error)
      else Settles d (if ok then Inr body else Inl Transport_failure))"

definition axios_request :: "request_config \<Rightarrow> network \<Rightarrow> nat \<Rightarrow> outcome \<times> nat" where
  "axios_request cfg net n = (settle (request_timeout cfg) (net n), Suc n)"

text \<open>
  \<open>http_request\<close> (from the source): the spread
  \<open>{timeout: 5000, baseURL: this.baseUrl, ...config}\<close>, in which the properties of
  \<open>config\<close> win, handed to \<open>axios.request\<close>, whose promise is returned as it is.
\<close>

definition http_request ::
  "string \<Rightarrow> request_config \<Rightarrow> network \<Rightarrow> nat \<Rightarrow> outcome \<times> nat" where
  "http_request baseUrl config net n =
     axios_request
       ([''timeout'' \<mapsto> Cfg_num (Fin 5000), ''baseURL'' \<mapsto> Cfg_str baseUrl] ++ config) net n"

text \<open>Three of the methods that go through it: their configurations are fixed.\<close>

definition get_motor_limit_list :: "string \<Rightarrow> network \<Rightarrow> nat \<Rightarrow> outcome \<times> nat" where
  "get_motor_limit_list baseUrl net n =
     http_request baseUrl
       [''method'' \<mapsto> Cfg_str ''GET'', ''url'' \<mapsto> Cfg_str ''/robot/motor/limit/list''] net n"

definition start :: "string \<Rightarrow> network \<Rightarrow> nat \<Rightarrow> outcome \<times> nat" where
  "start baseUrl net n =
     http_request baseUrl
       [''method'' \<mapsto> Cfg_str ''POST'', ''url'' \<mapsto> Cfg_str ''/robot/start''] net n"

definition stop :: "string \<Rightarrow> network \<Rightarrow> nat \<Rightarrow> outcome \<times> nat" where
  "stop baseUrl net n =
     http_request baseUrl
       [''method'' \<mapsto> Cfg_str ''POST'', ''url'' \<mapsto> Cfg_str ''/robot/stop''] net n"

section \<open>Notions used in the statements\<close>

text \<open>One operation after another; the second does not run when the first throws.\<close>

fun and_then :: "error + robot \<Rightarrow> (robot \<Rightarrow> error + robot) \<Rightarrow> error + robot" where
  "and_then (Inl e) f = Inl e"
| "and_then (Inr st) f = f st"

text \<open>
  The list \<open>move_joint\<close> holds in \<open>target_list\<close> after its second loop, the one it
  puts into the envelope, for the batch \<open>args\<close> and the limit cache \<open>limits\<close>.
\<close>

definition target_list_of :: "str_num \<Rightarrow> Motor list \<Rightarrow> jsobj list \<Rightarrow> jsobj list" where
  "target_list_of sn args limits =
     snd (clamp_all sn (join_limits sn (map motor_obj args) limits))"

text \<open>The warnings of that loop.\<close>

definition target_warnings :: "str_num \<Rightarrow> Motor list \<Rightarrow> jsobj list \<Rightarrow> console_msg list" where
  "target_warnings sn args limits =
     fst (clamp_all sn (join_limits sn (map motor_obj args) limits))"

text \<open>
  The pairs of the join, in its order: a target and a limit record the test of the inner
  loop accepts for it.
\<close>

definition matched :: "str_num \<Rightarrow> Motor list \<Rightarrow> jsobj list \<Rightarrow> (Motor \<times> jsobj) list" where
  "matched sn args limits =
     concat (map (\<lambda>m. map (Pair m) (filter (same_joint sn (motor_obj m)) limits)) args)"


text \<open>The compound key of a limit record, and a record whose key is two strings.\<close>

definition joint_key :: "jsobj \<Rightarrow> jsval \<times> jsval" where
  "joint_key l = (get l ''no'', get l ''orientation'')"

fun string_keyed :: "jsobj \<Rightarrow> bool" where
  "string_keyed l =
     (case joint_key l of (Str a, Str b) \<Rightarrow> True | _ \<Rightarrow> False)"

text \<open>
  A limit record of the shape the robot sends: numeric bounds in order, and no
  properties but \<open>no\<close>, \<open>orientation\<close>, \<open>min_angle\<close>, \<open>max_angle\<close>, \<open>ip\<close>.
\<close>

definition limit_fields :: "string set" where
  "limit_fields = {''no'', ''orientation'', ''min_angle'', ''max_angle'', ''ip''}"

definition bounds_ordered :: "jsobj \<Rightarrow> bool" where
  "bounds_ordered l =
     (case (get l ''min_angle'', get l ''max_angle'') of
        (Num mn, Num mx) \<Rightarrow> num_le mn mx
      | _ \<Rightarrow> False)"

text \<open>An angle that is a number other than \<open>NaN\<close>, or is left out.\<close>

fun angle_given :: "jsval \<Rightarrow> bool" where
  "angle_given (Num v) = (v \<noteq> NaN)"
| "angle_given Undefined = True"
| "angle_given Null = True"
| "angle_given (Str s) = False"

text \<open>
  The examples of the specification: the limit record of joint 1, left, from -10 to 10,
  a second record for the same joint, and targets for the joints 1 and 99.
\<close>

definition limit_1_left :: jsobj where
  "limit_1_left =
     [''no'' \<mapsto> Str ''1'', ''orientation'' \<mapsto> Str ''left'',
      ''min_angle'' \<mapsto> Num (Fin (- 10)), ''max_angle'' \<mapsto> Num (Fin 10), ''ip'' \<mapsto> Str ''x'']"

definition limit_1_left_narrow :: jsobj where
  "limit_1_left_narrow =
     [''no'' \<mapsto> Str ''1'', ''orientation'' \<mapsto> Str ''left'',
      ''min_angle'' \<mapsto> Num (Fin (- 5)), ''max_angle'' \<mapsto> Num (Fin 5), ''ip'' \<mapsto> Str ''x'']"

text \<open>
  The record of joint 1 with one more property, and the limit record of joint 2, left.
\<close>

definition limit_1_left_named :: jsobj where
  "limit_1_left_named = limit_1_left(''name'' \<mapsto> Str ''elbow'')"

definition limit_2_left :: jsobj where
  "limit_2_left =
     [''no'' \<mapsto> Str ''2'', ''orientation'' \<mapsto> Str ''left'',
      ''min_angle'' \<mapsto> Num (Fin (- 20)), ''max_angle'' \<mapsto> Num (Fin 20), ''ip'' \<mapsto> Str ''y'']"

definition target :: "string \<Rightarrow> jsval \<Rightarrow> Motor" where
  "target n a = \<lparr>no = n, orientation = ''left'', angle = a\<rparr>"

definition entry :: "string \<Rightarrow> jsval \<Rightarrow> jsobj" where
  "entry n a = [''no'' \<mapsto> Str n, ''orientation'' \<mapsto> Str ''left'', ''angle'' \<mapsto> a]"

definition move_joint_envelope :: "jsobj list \<Rightarrow> envelope" where
  "move_joint_envelope target_list =
     \<lparr>command = ''move_joint'', data = Command_list target_list\<rparr>"

text \<open>A conversion of strings to numbers for the examples, none of which uses it.\<close>

definition no_number :: str_num where
  "no_number s = NaN"

definition example_envelope :: envelope where
  "example_envelope = move_joint_envelope [entry ''1'' (Num (Fin 10))]"

text \<open>
  Examples for requests: an endpoint that never answers, one that never answers the first
  request and answers every later one at once, and a configuration with a timeout of its
  own.
\<close>

definition silent :: network where
  "silent k = Never_responds"

definition silent_once :: network where
  "silent_once k = (if k = 0 then Never_responds else Responds 1 True [])"

definition hasty_config :: request_config where
  "hasty_config =
     [''method'' \<mapsto> Cfg_str ''GET'', ''url'' \<mapsto> Cfg_str ''/robot/motor/limit/list'',
      ''timeout'' \<mapsto> Cfg_num (Fin 100)]"

section \<open>Auxiliary facts\<close>

subsection \<open>Comparison of numbers\<close>

lemma num_le_not_lt: "num_le a b \<Longrightarrow> \<not> num_lt b a"
  by (cases a; cases b) (auto simp: num_le_def num_eq_def)

lemma num_lt_le_trans: "num_lt a b \<Longrightarrow> num_le b c \<Longrightarrow> num_lt a c"
  by (cases a; cases b; cases c) (auto simp: num_le_def num_eq_def)

lemma num_le_lt_trans: "num_le a b \<Longrightarrow> num_lt b c \<Longrightarrow> num_lt a c"
  by (cases a; cases b; cases c) (auto simp: num_le_def num_eq_def)

lemma num_le_refl: "a \<noteq> NaN \<Longrightarrow> num_le a a"
  by (simp add: num_le_def num_eq_def)

lemma not_lt_num_le: "a \<noteq> NaN \<Longrightarrow> b \<noteq> NaN \<Longrightarrow> \<not> num_lt b a \<Longrightarrow> num_le a b"
  by (cases a; cases b) (auto simp: num_le_def num_eq_def)

lemma num_le_not_NaN: "num_le a b \<Longrightarrow> a \<noteq> NaN \<and> b \<noteq> NaN"
  by (cases a; cases b) (auto simp: num_le_def num_eq_def)

subsection \<open>The clamp\<close>

lemma cover_param_Num:
  "num_le mn mx \<Longrightarrow>
   snd (cover_param sn (Num v) name (Num mn) (Num mx)) =
     Num (if num_lt v mn then mn else if num_lt mx v then mx else v)"
  by (cases v; cases mn; cases mx)
     (auto simp: cover_param_def js_gt_def num_le_def num_eq_def)

lemma cover_param_Undefined:
  "snd (cover_param sn Undefined name mn mx) = snd (cover_param sn (Num (Fin 0)) name mn mx)"
  by (simp add: cover_param_def num_eq_def)

text \<open>
  For a number other than \<open>NaN\<close>, and for a value that is left out, the result lies
  in the range.
\<close>

lemma cover_param_in_range:
  assumes "angle_given v" and "num_le mn mx"
  shows "val_in_range (snd (cover_param sn v name (Num mn) (Num mx))) (Num mn) (Num mx)"
proof (cases v)
  case (Num x)
  with assms have x: "x \<noteq> NaN" by simp
  from assms(2) have b: "mn \<noteq> NaN" "mx \<noteq> NaN"
    by (simp_all add: num_le_not_NaN)
  show ?thesis
    unfolding Num cover_param_Num [OF assms(2)]
    using x b assms(2) by (auto simp: in_range_def num_le_refl not_lt_num_le)
next
  case (Str s)
  with assms show ?thesis by simp
next
  case Undefined
  have "val_in_range (snd (cover_param sn (Num (Fin 0)) name (Num mn) (Num mx))) (Num mn) (Num mx)"
    using assms(2) num_le_not_NaN [OF assms(2)]
    unfolding cover_param_Num [OF assms(2)]
    by (auto simp: in_range_def num_le_refl not_lt_num_le)
  then show ?thesis
    unfolding Undefined by (simp add: cover_param_Undefined)
next
  case Null
  have "snd (cover_param sn Null name (Num mn) (Num mx)) =
        snd (cover_param sn (Num (Fin 0)) name (Num mn) (Num mx))"
    by (simp add: cover_param_def)
  moreover
  have "val_in_range (snd (cover_param sn (Num (Fin 0)) name (Num mn) (Num mx))) (Num mn) (Num mx)"
    using assms(2) num_le_not_NaN [OF assms(2)]
    unfolding cover_param_Num [OF assms(2)]
    by (auto simp: in_range_def num_le_refl not_lt_num_le)
  ultimately show ?thesis
    unfolding Null by simp
qed

subsection \<open>Objects\<close>

lemma get_upd: "get (m(k \<mapsto> v)) k' = (if k' = k then v else get m k')"
  by (simp add: get_def)

lemma get_del: "get (m(k := None)) k' = (if k' = k then Undefined else get m k')"
  by (simp add: get_def)

lemma get_empty: "get Map.empty k = Undefined"
  by (simp add: get_def)

lemma get_add: "get (m ++ m') k = (case m' k of None \<Rightarrow> get m k | Some v \<Rightarrow> v)"
  by (simp add: get_def map_add_def split: option.splits)

lemma clamp_motor_snd:
  "snd (clamp_motor sn obj) =
     (obj(''angle'' \<mapsto> snd (cover_param sn (get obj ''angle'') ''angle''
                            (get obj ''min_angle'') (get obj ''max_angle''))))
       (''min_angle'' := None, ''max_angle'' := None, ''ip'' := None)"
  by (simp add: clamp_motor_def split_def Let_def)

lemma clamp_motor_absent:
  "snd (clamp_motor sn obj) ''min_angle'' = None"
  "snd (clamp_motor sn obj) ''max_angle'' = None"
  "snd (clamp_motor sn obj) ''ip'' = None"
  by (simp_all add: clamp_motor_snd)

lemma Diff3: "A - {a} - {b} - {c} = A - {a, b, c}"
  by blast

lemma entry_fields:
  assumes "L \<subseteq> {n, ori, mn, mx, ip}"
  shows "insert a ({n, ori, a} \<union> L) - {mn, mx, ip} = {n, ori, a} - {mn, mx, ip}"
  using assms by blast

lemma clamp_motor_dom:
  "dom (snd (clamp_motor sn obj)) =
     insert ''angle'' (dom obj) - {''min_angle'', ''max_angle'', ''ip''}"
  by (simp add: clamp_motor_snd Diff3)

lemma motor_obj_dom: "dom (motor_obj m) = {''no'', ''orientation'', ''angle''}"
  by (simp add: motor_obj_def insert_commute)

lemma entry_dom:
  assumes "dom l \<subseteq> limit_fields"
  shows "dom (snd (clamp_motor sn (motor_obj m ++ l))) = {''no'', ''orientation'', ''angle''}"
proof -
  have "dom (snd (clamp_motor sn (motor_obj m ++ l))) =
          {''no'', ''orientation'', ''angle''} - {''min_angle'', ''max_angle'', ''ip''}"
    unfolding clamp_motor_dom dom_map_add motor_obj_dom
    using assms unfolding limit_fields_def
    by (subst Un_commute) (rule entry_fields)
  then show ?thesis by simp
qed

lemma entry_fields_general:
  assumes "a \<notin> D" and "n \<notin> D" and "ori \<notin> D"
  shows "insert a (L \<union> {n, ori, a}) - D = {n, ori, a} \<union> (L - D)"
  using assms by blast

lemma entry_dom_general:
  "dom (snd (clamp_motor sn (motor_obj m ++ l))) =
     {''no'', ''orientation'', ''angle''} \<union> (dom l - {''min_angle'', ''max_angle'', ''ip''})"
  unfolding clamp_motor_dom dom_map_add motor_obj_dom
  by (rule entry_fields_general) simp_all

lemma get_joined_bound:
  "k \<noteq> ''no'' \<Longrightarrow> k \<noteq> ''orientation'' \<Longrightarrow> k \<noteq> ''angle'' \<Longrightarrow>
   get (motor_obj m ++ l) k = get l k"
  by (simp add: motor_obj_def get_def map_add_def split: option.splits)

lemma get_joined_angle:
  "l ''angle'' = None \<Longrightarrow> get (motor_obj m ++ l) ''angle'' = angle m"
  by (simp add: motor_obj_def get_def map_add_def)

lemma get_clamped_angle:
  "get (snd (clamp_motor sn obj)) ''angle'' =
     snd (cover_param sn (get obj ''angle'') ''angle'' (get obj ''min_angle'') (get obj ''max_angle''))"
  by (simp add: clamp_motor_snd get_def)

lemma entry_in_range:
  assumes "bounds_ordered l" and "l ''angle'' = None" and "angle_given (angle m)"
  shows "val_in_range (get (snd (clamp_motor sn (motor_obj m ++ l))) ''angle'')
           (get l ''min_angle'') (get l ''max_angle'')"
proof -
  from assms(1) obtain mn mx where b: "get l ''min_angle'' = Num mn" "get l ''max_angle'' = Num mx"
    "num_le mn mx"
    by (auto simp: bounds_ordered_def split: jsval.splits)
  show ?thesis
    unfolding get_clamped_angle
    using cover_param_in_range [OF assms(3) b(3), of sn "''angle''"] assms(2)
    by (simp add: get_joined_bound get_joined_angle b)
qed

subsection \<open>The join\<close>

lemma clamp_all_map:
  "clamp_all sn ms = (concat (map (fst \<circ> clamp_motor sn) ms), map (snd \<circ> clamp_motor sn) ms)"
  by (induction ms) (auto split: prod.splits)

lemma join_limits_matched:
  "join_limits sn (map motor_obj args) limits =
     map (\<lambda>(m, l). motor_obj m ++ l) (matched sn args limits)"
  by (induction args) (simp_all add: join_limits_def matched_def comp_def)

lemma target_list_of_matched:
  "target_list_of sn args limits =
     map (\<lambda>(m, l). snd (clamp_motor sn (motor_obj m ++ l))) (matched sn args limits)"
  by (simp add: target_list_of_def clamp_all_map join_limits_matched comp_def split_def)

lemma matched_set:
  "(m, l) \<in> set (matched sn args limits) \<longleftrightarrow>
     m \<in> set args \<and> l \<in> set limits \<and> same_joint sn (motor_obj m) l"
  by (auto simp: matched_def)

lemma target_list_of_length:
  "length (target_list_of sn args limits) = length (matched sn args limits)"
  by (simp add: target_list_of_matched)

lemma matched_single:
  "matched sn [m] limits = map (Pair m) (filter (same_joint sn (motor_obj m)) limits)"
  by (simp add: matched_def)






lemma filter_key_le_1:
  "distinct (map f xs) \<Longrightarrow> length (filter (\<lambda>x. f x = k) xs) \<le> Suc 0"
proof (induction xs)
  case Nil
  then show ?case by simp
next
  case (Cons x xs)
  show ?case
  proof (cases "f x = k")
    case True
    have "f x \<notin> f ` set xs"
      using Cons.prems by simp
    with True have "\<forall>y \<in> set xs. f y \<noteq> k"
      by blast
    then have "filter (\<lambda>x. f x = k) xs = []"
      by (simp add: filter_empty_conv)
    with True show ?thesis by simp
  next
    case False
    then show ?thesis using Cons by simp
  qed
qed

lemma same_joint_string_keyed:
  "string_keyed l \<Longrightarrow>
   same_joint sn (motor_obj m) l \<longleftrightarrow> joint_key l = (Str (no m), Str (orientation m))"
  by (auto simp: same_joint_def joint_key_def motor_obj_def get_upd
      split: jsval.splits prod.splits)

lemma matches_le_1:
  assumes "list_all string_keyed limits" and "distinct (map joint_key limits)"
  shows "length (filter (same_joint sn (motor_obj m)) limits) \<le> Suc 0"
proof -
  have "filter (same_joint sn (motor_obj m)) limits =
          filter (\<lambda>l. joint_key l = (Str (no m), Str (orientation m))) limits"
    using assms(1) by (intro filter_cong refl) (simp add: list_all_iff same_joint_string_keyed)
  then show ?thesis
    using filter_key_le_1 [OF assms(2)] by simp
qed

lemma matched_length_le:
  assumes "list_all string_keyed limits" and "distinct (map joint_key limits)"
  shows "length (matched sn args limits) \<le> length args"
proof (induction args)
  case Nil
  then show ?case by (simp add: matched_def)
next
  case (Cons m args)
  have "length (matched sn (m # args) limits) =
          length (filter (same_joint sn (motor_obj m)) limits) + length (matched sn args limits)"
    by (simp add: matched_def)
  then show ?case
    using matches_le_1 [OF assms, of sn m] Cons by simp
qed

text \<open>
  When every limit record has numeric bounds in order and no angle of its own, and every
  angle of the batch is a number other than \<open>NaN\<close> or is left out, each entry of the
  outbound batch has its angle in the range of the limit record it was joined with.
\<close>

lemma target_list_in_range:
  assumes "\<forall>l \<in> set limits. bounds_ordered l \<and> l ''angle'' = None"
    and "\<forall>m \<in> set args. angle_given (angle m)"
  shows "list_all2
           (\<lambda>e (m, l). val_in_range (get e ''angle'') (get l ''min_angle'') (get l ''max_angle''))
           (target_list_of sn args limits) (matched sn args limits)"
proof -
  have "val_in_range (get (snd (clamp_motor sn (motor_obj m ++ l))) ''angle'')
           (get l ''min_angle'') (get l ''max_angle'')"
    if "(m, l) \<in> set (matched sn args limits)" for m l
    using that assms by (intro entry_in_range) (auto simp: matched_set)
  then show ?thesis
    unfolding target_list_of_matched
    by (auto simp: list_all2_map1 list_all2_same)
qed

subsection \<open>Sending and dispatching\<close>

lemma websocket_send_open:
  "ready st \<Longrightarrow> websocket_send m st = Inr (st\<lparr>wire := wire st @ [m], retry_count := 0\<rparr>)"
  by (simp add: websocket_send_def)

lemma websocket_send_closed:
  "\<not> ready st \<Longrightarrow> retry_count st \<noteq> 5 \<Longrightarrow>
   websocket_send m st =
     Inr (st\<lparr>retry_count := retry_count st + 1,
             console := console st @ [Warn_retry (retry_count st + 1)],
             timers := timers st @ [(now st + 1000, Resend m)]\<rparr>)"
  by (simp add: websocket_send_def console_out_def setTimeout_def)

lemma websocket_send_exhausted:
  "\<not> ready st \<Longrightarrow> retry_count st = 5 \<Longrightarrow> websocket_send m st = Inl Max_retry_reached"
  by (simp add: websocket_send_def)

lemma websocket_send_limits:
  "websocket_send m st = Inr st' \<Longrightarrow> motor_limits st' = motor_limits st"
  by (auto simp: websocket_send_def setTimeout_def console_out_def Let_def split: if_splits)

lemma move_joint_waiting:
  "motor_limits st = [] \<Longrightarrow>
   move_joint sn args st =
     Inr (setTimeout (Redispatch args) 500 (console_out [Log_motor_limits []] st))"
  by (simp add: move_joint_def console_out_def)

lemma move_joint_loaded:
  "motor_limits st \<noteq> [] \<Longrightarrow>
   move_joint sn args st =
     (if target_list_of sn args (motor_limits st) = []
      then Inr (console_out [Log_motor_limits (motor_limits st)] st)
      else websocket_send (move_joint_envelope (target_list_of sn args (motor_limits st)))
             (console_out (Log_motor_limits (motor_limits st)
                 # target_warnings sn args (motor_limits st)
                 @ [Log_target_list (target_list_of sn args (motor_limits st))]) st))"
  by (auto simp: move_joint_def console_out_def target_list_of_def target_warnings_def
      move_joint_envelope_def clamp_all_map Let_def)

lemma move_joint_open:
  assumes "motor_limits st \<noteq> []" and "ready st"
  shows "\<exists>st'. move_joint sn args st = Inr st' \<and> timers st' = timers st \<and>
           motor_limits st' = motor_limits st \<and>
           wire st' = wire st @
             (if target_list_of sn args (motor_limits st) = [] then []
              else [move_joint_envelope (target_list_of sn args (motor_limits st))])"
  using assms by (simp add: move_joint_loaded websocket_send_open console_out_def)

lemma move_joint_limits:
  "move_joint sn args st = Inr st' \<Longrightarrow> motor_limits st' = motor_limits st"
  by (cases "motor_limits st = []")
     (auto simp: move_joint_waiting move_joint_loaded setTimeout_def console_out_def
        split: if_splits dest!: websocket_send_limits)

lemma Motor_move_joint_loaded:
  "motor_limits st \<noteq> [] \<Longrightarrow>
   Motor_move_joint sn args st =
     (if target_list_of sn args (motor_limits st) = [] then Inr st
      else websocket_send (move_joint_envelope (target_list_of sn args (motor_limits st)))
             (console_out (target_warnings sn args (motor_limits st)) st))"
  by (auto simp: Motor_move_joint_def console_out_def target_list_of_def target_warnings_def
      move_joint_envelope_def clamp_all_map Let_def)

lemma Motor_move_joint_limits:
  "Motor_move_joint sn args st = Inr st' \<Longrightarrow> motor_limits st' = motor_limits st"
proof (cases "motor_limits st = []")
  case True
  assume "Motor_move_joint sn args st = Inr st'"
  with True show ?thesis
    by (auto simp: Motor_move_joint_def setTimeout_def)
next
  case False
  assume "Motor_move_joint sn args st = Inr st'"
  with False show ?thesis
    by (auto simp: Motor_move_joint_loaded console_out_def split: if_splits
        dest!: websocket_send_limits)
qed

text \<open>
  A motor number above 8: the call prints its message and returns; nothing is sent and
  nothing is thrown.
\<close>

lemma motor_above_8:
  assumes "num_lt (Fin 8) (parseInt mno)"
  shows "enable_motor mno side st = Inr (console_out [Log_motor_fail mno] st)"
    and "disable_motor mno side st = Inr (console_out [Log_motor_fail mno] st)"
  using assms by (simp_all add: enable_motor_def disable_motor_def)

subsection \<open>Timers\<close>

lemma fire_single:
  "timers st = [(d, cb)] \<Longrightarrow>
   fire sn st = run_task sn cb (st\<lparr>now := max (now st) d, timers := []\<rparr>)"
  by (simp add: fire_def)

lemma fire_limits:
  "fire sn st = Inr st' \<Longrightarrow> motor_limits st' = motor_limits st"
proof (cases "earliest (timers st)")
  case None
  then show "fire sn st = Inr st' \<Longrightarrow> motor_limits st' = motor_limits st"
    by (simp add: fire_def)
next
  case (Some a)
  obtain due cb where a: "a = (due, cb)" by (cases a)
  assume "fire sn st = Inr st'"
  with Some a have "run_task sn cb (st\<lparr>now := max (now st) due,
      timers := remove1 (due, cb) (timers st)\<rparr>) = Inr st'"
    by (simp add: fire_def)
  then show "motor_limits st' = motor_limits st"
    by (cases cb) (auto dest: websocket_send_limits move_joint_limits Motor_move_joint_limits)
qed

lemma resend_loop:
  "\<not> ready s \<Longrightarrow> timers s = [(d, Resend m)] \<Longrightarrow> now s \<le> d \<Longrightarrow> retry_count s + n \<le> 5 \<Longrightarrow>
   \<exists>s'. fire_n sn n s = Inr s' \<and> \<not> ready s' \<and> wire s' = wire s \<and>
        motor_limits s' = motor_limits s \<and>
        retry_count s' = retry_count s + n \<and>
        timers s' = [(d + 1000 * n, Resend m)] \<and> now s' \<le> d + 1000 * n"
proof (induction n arbitrary: s d)
  case 0
  then show ?case by simp
next
  case (Suc n)
  let ?s0 = "s\<lparr>now := max (now s) d, timers := []\<rparr>"
  let ?s1 = "?s0\<lparr>retry_count := retry_count s + 1,
                   console := console s @ [Warn_retry (retry_count s + 1)],
                   timers := [(d + 1000, Resend m)]\<rparr>"
  have f: "fire sn s = Inr ?s1"
    using Suc.prems by (simp add: fire_single websocket_send_closed max_absorb2)
  have "\<exists>s'. fire_n sn n ?s1 = Inr s' \<and> \<not> ready s' \<and> wire s' = wire ?s1 \<and>
        motor_limits s' = motor_limits ?s1 \<and>
        retry_count s' = retry_count ?s1 + n \<and>
        timers s' = [(d + 1000 + 1000 * n, Resend m)] \<and> now s' \<le> d + 1000 + 1000 * n"
    using Suc.prems by (intro Suc.IH) simp_all
  then show ?case
    using f by (auto simp: algebra_simps)
qed

lemma resend_exhausts:
  "\<not> ready s \<Longrightarrow> timers s = [(d, Resend m)] \<Longrightarrow> now s \<le> d \<Longrightarrow> retry_count s + n = 5 \<Longrightarrow>
   fire_n sn (Suc n) s = Inl Max_retry_reached"
proof (induction n arbitrary: s d)
  case 0
  then show ?case by (simp add: fire_single websocket_send_exhausted)
next
  case (Suc n)
  let ?s0 = "s\<lparr>now := max (now s) d, timers := []\<rparr>"
  let ?s1 = "?s0\<lparr>retry_count := retry_count s + 1,
                   console := console s @ [Warn_retry (retry_count s + 1)],
                   timers := [(d + 1000, Resend m)]\<rparr>"
  have f: "fire sn s = Inr ?s1"
    using Suc.prems by (simp add: fire_single websocket_send_closed max_absorb2)
  have "fire_n sn (Suc n) ?s1 = Inl Max_retry_reached"
    using Suc.prems by (intro Suc.IH [where d = "d + 1000"]) simp_all
  then show ?case
    using f by simp
qed

lemma redispatch_loop:
  "motor_limits s = [] \<Longrightarrow> timers s = [(d, Redispatch args)] \<Longrightarrow> now s \<le> d \<Longrightarrow>
   \<exists>s'. fire_n sn n s = Inr s' \<and> ready s' = ready s \<and> wire s' = wire s \<and>
        retry_count s' = retry_count s \<and> motor_limits s' = [] \<and>
        timers s' = [(d + 500 * n, Redispatch args)] \<and> now s' \<le> d + 500 * n"
proof (induction n arbitrary: s d)
  case 0
  then show ?case by simp
next
  case (Suc n)
  let ?s0 = "s\<lparr>now := max (now s) d, timers := []\<rparr>"
  let ?s1 = "setTimeout (Redispatch args) 500 (console_out [Log_motor_limits []] ?s0)"
  have f: "fire sn s = Inr ?s1"
    using Suc.prems by (simp add: fire_single move_joint_waiting)
  have "\<exists>s'. fire_n sn n ?s1 = Inr s' \<and> ready s' = ready ?s1 \<and> wire s' = wire ?s1 \<and>
        retry_count s' = retry_count ?s1 \<and> motor_limits s' = [] \<and>
        timers s' = [(d + 500 + 500 * n, Redispatch args)] \<and> now s' \<le> d + 500 + 500 * n"
    using Suc.prems by (intro Suc.IH) (simp_all add: setTimeout_def console_out_def max_absorb2)
  then show ?case
    using f by (auto simp: algebra_simps setTimeout_def console_out_def)
qed

lemma redispatch_loaded:
  assumes "motor_limits s = []" "timers s = [(d, Redispatch args)]" "table \<noteq> []"
  shows "\<exists>s'. fire sn (motor_limit_list_result (Inr table) (s\<lparr>ready := True\<rparr>)) = Inr s' \<and>
           timers s' = [] \<and>
           wire s' = wire s @
             (if target_list_of sn args table = [] then []
              else [move_joint_envelope (target_list_of sn args table)])"
  using assms
  by (simp add: fire_single move_joint_loaded websocket_send_open console_out_def)

subsection \<open>Requests\<close>

lemma effective_timeout:
  "request_timeout
     ([''timeout'' \<mapsto> Cfg_num (Fin 5000), ''baseURL'' \<mapsto> Cfg_str baseUrl] ++ config) =
   (case config ''timeout'' of None \<Rightarrow> Some 5000 | Some v \<Rightarrow> request_timeout config)"
  by (simp add: request_timeout_def map_add_def split: option.splits)

lemma http_request_eq:
  "http_request baseUrl config net n =
     (settle (case config ''timeout'' of None \<Rightarrow> Some 5000 | Some v \<Rightarrow> request_timeout config)
        (net n), Suc n)"
  by (simp add: http_request_def axios_request_def effective_timeout)

subsection \<open>The examples\<close>

lemmas example_defs =
  target_list_of_def join_limits_def same_joint_def motor_obj_def limit_1_left_def
  limit_1_left_narrow_def target_def entry_def clamp_motor_def cover_param_def js_gt_def
  get_upd get_del get_empty get_add no_number_def

lemma target_list_50:
  "target_list_of no_number [target ''1'' (Num (Fin 50))] [limit_1_left]
     = [entry ''1'' (Num (Fin 10))]"
  by (simp add: example_defs)

lemma target_list_99_only:
  "target_list_of no_number [target ''99'' (Num (Fin 5))] [limit_1_left] = []"
  by (simp add: example_defs)

lemma target_list_99:
  "target_list_of sn [target ''1'' (Num (Fin 99)), target ''99'' (Num (Fin 5))] [limit_1_left]
     = [entry ''1'' (Num (Fin 10))]"
  by (simp add: example_defs)

lemma target_list_two_records:
  "target_list_of sn [target ''1'' (Num (Fin 99))] [limit_1_left, limit_1_left_narrow]
     = [entry ''1'' (Num (Fin 10)), entry ''1'' (Num (Fin 5))]"
  by (simp add: example_defs)

lemma target_list_NaN:
  "target_list_of sn [target ''1'' (Num NaN)] [limit_1_left] = [entry ''1'' (Num NaN)]"
  by (simp add: example_defs)

lemma target_list_named:
  "target_list_of sn [target ''1'' (Num (Fin 99))] [limit_1_left_named]
     = [(entry ''1'' (Num (Fin 10)))(''name'' \<mapsto> Str ''elbow'')]"
  by (simp add: example_defs limit_1_left_named_def) (rule ext, simp)

lemma matched_named:
  "matched sn [target ''1'' (Num (Fin 99))] [limit_1_left_named]
     = [(target ''1'' (Num (Fin 99)), limit_1_left_named)]"
  by (simp add: matched_def example_defs limit_1_left_named_def)

lemma target_list_two_keys:
  "target_list_of sn
     [target ''1'' (Num (Fin 99)), target ''2'' (Num (Fin 50)), target ''99'' (Num (Fin 5))]
     [limit_1_left, limit_2_left]
     = [entry ''1'' (Num (Fin 10)), entry ''2'' (Num (Fin 20))]"
  by (simp add: example_defs limit_2_left_def)

lemma two_keys_distinct:
  "list_all string_keyed [limit_1_left, limit_2_left]"
  "distinct (map joint_key [limit_1_left, limit_2_left])"
  by (simp_all add: joint_key_def limit_1_left_def limit_2_left_def get_upd)


lemma limit_1_left_dom: "dom limit_1_left \<subseteq> limit_fields"
  by (simp add: limit_1_left_def limit_fields_def)

lemma parseInt_examples:
  "parseInt ''-1'' = Fin (- 1)"
  "parseInt ''abc'' = NaN"
  "parseInt ''9'' = Fin 9"
  "parseInt ''8'' = Fin 8"
  by (simp_all add: parseInt_def is_white_space_def is_digit_def digit_of_def math_int_def)

section \<open>The claims\<close>

subsection \<open>C1: no angle outside the range leaves the client\<close>

text \<open>
  C1. The claim fails for a target whose angle is \<open>NaN\<close>: the entry leaves the
  client with that angle, which lies in no range. Here the target is joint 1, left, the
  channel is open and the cache holds the limit record of that joint with the bounds -10
  and 10. (For angles that are numbers other than \<open>NaN\<close> or are left out the claim
  holds: \<open>target_list_in_range\<close>.)
\<close>

theorem move_joint_NaN_angle:
  "map_sum id wire
     (move_joint sn [target ''1'' (Num NaN)]
        (motor_limit_list_result (Inr [limit_1_left]) (ws_onopen Human_new)))
     = Inr [move_joint_envelope [entry ''1'' (Num NaN)]] \<and>
   bounds_ordered limit_1_left \<and>
   \<not> val_in_range (get (entry ''1'' (Num NaN)) ''angle'')
        (get limit_1_left ''min_angle'') (get limit_1_left ''max_angle'')"
proof (intro conjI)
  show "map_sum id wire
     (move_joint sn [target ''1'' (Num NaN)]
        (motor_limit_list_result (Inr [limit_1_left]) (ws_onopen Human_new)))
     = Inr [move_joint_envelope [entry ''1'' (Num NaN)]]"
    by (simp add: move_joint_loaded target_list_NaN websocket_send_open ws_onopen_def
        Human_new_def console_out_def)
  show "bounds_ordered limit_1_left"
    by (simp add: bounds_ordered_def limit_1_left_def get_upd num_le_def)
  show "\<not> val_in_range (get (entry ''1'' (Num NaN)) ''angle'')
        (get limit_1_left ''min_angle'') (get limit_1_left ''max_angle'')"
    by (simp add: entry_def limit_1_left_def get_upd in_range_def num_le_def num_eq_def)
qed

subsection \<open>C2: the readiness gate\<close>

text \<open>
  C2 (as amended). Called with an empty limit cache, \<open>move_joint\<close> sends nothing and
  throws nothing, whatever the state of the channel: it sets a timer 500 ms ahead whose
  callback calls it again with the whole batch, and the callback does the same whenever it
  finds the cache empty. When the callback finds a table in the cache and the channel
  open, it sends one \<open>move_joint\<close> envelope with the clamped entries of the original
  batch if a target of the batch has a limit record, sends nothing if none has, and sets no
  timer. The last part follows one dispatch on a connection with no other timer pending:
  after any number of runs the cache is still awaited, and the run after the table has
  arrived is the last one.
\<close>

theorem move_joint_readiness_gate:
  "(motor_limits st = [] \<longrightarrow>
      (\<exists>st1. run_task sn (Redispatch args) st = move_joint sn args st \<and>
             move_joint sn args st = Inr st1 \<and>
             wire st1 = wire st \<and> retry_count st1 = retry_count st \<and>
             motor_limits st1 = [] \<and>
             timers st1 = timers st @ [(now st + 500, Redispatch args)])) \<and>
   (motor_limits st \<noteq> [] \<and> ready st \<longrightarrow>
      (\<exists>st'. run_task sn (Redispatch args) st = Inr st' \<and> timers st' = timers st \<and>
             wire st' = wire st @
               (if target_list_of sn args (motor_limits st) = [] then []
                else [move_joint_envelope (target_list_of sn args (motor_limits st))]))) \<and>
   (motor_limits st = [] \<and> timers st = [] \<longrightarrow>
      (\<exists>st1. move_joint sn args st = Inr st1 \<and>
         (\<forall>n. \<exists>stn. fire_n sn n st1 = Inr stn \<and>
               wire stn = wire st \<and> retry_count stn = retry_count st \<and>
               motor_limits stn = [] \<and>
               timers stn = [(now st + 500 * (n + 1), Redispatch args)] \<and>
               (\<forall>table. table \<noteq> [] \<longrightarrow>
                  (\<exists>st'. fire sn (motor_limit_list_result (Inr table) (stn\<lparr>ready := True\<rparr>))
                           = Inr st' \<and>
                         timers st' = [] \<and>
                         wire st' = wire st @
                           (if target_list_of sn args table = [] then []
                            else [move_joint_envelope (target_list_of sn args table)]))))))"
proof (intro conjI impI)
  assume "motor_limits st = []"
  then show "\<exists>st1. run_task sn (Redispatch args) st = move_joint sn args st \<and>
             move_joint sn args st = Inr st1 \<and>
             wire st1 = wire st \<and> retry_count st1 = retry_count st \<and>
             motor_limits st1 = [] \<and>
             timers st1 = timers st @ [(now st + 500, Redispatch args)]"
    by (simp add: move_joint_waiting setTimeout_def console_out_def)
next
  assume "motor_limits st \<noteq> [] \<and> ready st"
  then show "\<exists>st'. run_task sn (Redispatch args) st = Inr st' \<and> timers st' = timers st \<and>
             wire st' = wire st @
               (if target_list_of sn args (motor_limits st) = [] then []
                else [move_joint_envelope (target_list_of sn args (motor_limits st))])"
    using move_joint_open [of st sn args] by auto
next
  assume a: "motor_limits st = [] \<and> timers st = []"
  let ?st1 = "setTimeout (Redispatch args) 500 (console_out [Log_motor_limits []] st)"
  have m: "move_joint sn args st = Inr ?st1"
    using a by (simp add: move_joint_waiting)
  have st1: "motor_limits ?st1 = []" "timers ?st1 = [(now st + 500, Redispatch args)]"
    "now ?st1 \<le> now st + 500" "wire ?st1 = wire st" "retry_count ?st1 = retry_count st"
    using a by (simp_all add: setTimeout_def console_out_def)
  have step: "\<exists>stn. fire_n sn n ?st1 = Inr stn \<and>
                 wire stn = wire st \<and> retry_count stn = retry_count st \<and>
                 motor_limits stn = [] \<and>
                 timers stn = [(now st + 500 * (n + 1), Redispatch args)] \<and>
                 (\<forall>table. table \<noteq> [] \<longrightarrow>
                    (\<exists>st'. fire sn (motor_limit_list_result (Inr table) (stn\<lparr>ready := True\<rparr>))
                             = Inr st' \<and>
                           timers st' = [] \<and>
                           wire st' = wire st @
                             (if target_list_of sn args table = [] then []
                              else [move_joint_envelope (target_list_of sn args table)])))" for n
  proof -
    obtain stn where n: "fire_n sn n ?st1 = Inr stn" "wire stn = wire ?st1"
      "retry_count stn = retry_count ?st1" "motor_limits stn = []"
      "timers stn = [(now st + 500 + 500 * n, Redispatch args)]"
      using redispatch_loop [OF st1(1) st1(2) st1(3), of sn n] by blast
    have "\<exists>st'. fire sn (motor_limit_list_result (Inr table) (stn\<lparr>ready := True\<rparr>)) = Inr st' \<and>
                 timers st' = [] \<and>
                 wire st' = wire st @
                   (if target_list_of sn args table = [] then []
                    else [move_joint_envelope (target_list_of sn args table)])"
      if "table \<noteq> []" for table
      using redispatch_loaded [OF n(4) n(5) that, of sn] n(2) st1(4) by simp
    then show ?thesis
      using n st1 by (auto simp: algebra_simps)
  qed
  show "\<exists>st1. move_joint sn args st = Inr st1 \<and>
         (\<forall>n. \<exists>stn. fire_n sn n st1 = Inr stn \<and>
               wire stn = wire st \<and> retry_count stn = retry_count st \<and>
               motor_limits stn = [] \<and>
               timers stn = [(now st + 500 * (n + 1), Redispatch args)] \<and>
               (\<forall>table. table \<noteq> [] \<longrightarrow>
                  (\<exists>st'. fire sn (motor_limit_list_result (Inr table) (stn\<lparr>ready := True\<rparr>))
                           = Inr st' \<and>
                         timers st' = [] \<and>
                         wire st' = wire st @
                           (if target_list_of sn args table = [] then []
                            else [move_joint_envelope (target_list_of sn args table)]))))"
    using m step by blast
qed

text \<open>
  C2, counterexample to the claim as stated: the batch holds a target for joint 99 only,
  the channel is open, and the table that arrives holds the limit record of joint 1. The
  dispatch waits, runs again when the table is there, and sends nothing: not the one send
  the claim promises.
\<close>

theorem move_joint_unmatched_sends_nothing:
  "map_sum id wire
     (and_then (move_joint no_number [target ''99'' (Num (Fin 5))] (ws_onopen Human_new))
        (fire no_number \<circ> motor_limit_list_result (Inr [limit_1_left]))) = Inr [] \<and>
   map_sum id timers
     (and_then (move_joint no_number [target ''99'' (Num (Fin 5))] (ws_onopen Human_new))
        (fire no_number \<circ> motor_limit_list_result (Inr [limit_1_left]))) = Inr []"
  by (simp add: move_joint_waiting ws_onopen_def Human_new_def console_out_def setTimeout_def
      fire_single move_joint_loaded target_list_99_only)

text \<open>
  C2, witness: a new connection and a target of 50 for joint 1. After three runs of the
  timer nothing is sent and the timer is due at 2000 ms; the table arrives, the channel is
  open, and the next run sends the one entry, clamped to 10. On a connection that has its
  table and an open channel the callback sends that entry at once.
\<close>

theorem move_joint_readiness_gate_witness:
  "motor_limits Human_new = [] \<and> timers Human_new = [] \<and>
   (\<exists>st1 stn st'.
      move_joint no_number [target ''1'' (Num (Fin 50))] Human_new = Inr st1 \<and>
      wire st1 = [] \<and> timers st1 = [(500, Redispatch [target ''1'' (Num (Fin 50))])] \<and>
      fire_n no_number 3 st1 = Inr stn \<and> wire stn = [] \<and>
      timers stn = [(2000, Redispatch [target ''1'' (Num (Fin 50))])] \<and>
      fire no_number (motor_limit_list_result (Inr [limit_1_left]) (stn\<lparr>ready := True\<rparr>))
        = Inr st' \<and>
      wire st' = [move_joint_envelope [entry ''1'' (Num (Fin 10))]]) \<and>
   motor_limits (motor_limit_list_result (Inr [limit_1_left]) (ws_onopen Human_new)) \<noteq> [] \<and>
   ready (motor_limit_list_result (Inr [limit_1_left]) (ws_onopen Human_new)) \<and>
   (\<exists>st'. run_task no_number (Redispatch [target ''1'' (Num (Fin 50))])
            (motor_limit_list_result (Inr [limit_1_left]) (ws_onopen Human_new)) = Inr st' \<and>
          wire st' = [move_joint_envelope [entry ''1'' (Num (Fin 10))]])"
proof -
  let ?args = "[target ''1'' (Num (Fin 50))]"
  let ?loaded = "motor_limit_list_result (Inr [limit_1_left]) (ws_onopen Human_new)"
  have h: "motor_limits Human_new = [] \<and> timers Human_new = []"
    by (simp add: Human_new_def)
  have w: "wire Human_new = []" "now Human_new = 0"
    by (simp_all add: Human_new_def)
  note gate = move_joint_readiness_gate [where sn = no_number and args = ?args]
  from h gate [where st = Human_new]
  obtain st1 where 1: "move_joint no_number ?args Human_new = Inr st1"
    and all: "\<And>n. \<exists>stn. fire_n no_number n st1 = Inr stn \<and>
                 wire stn = wire Human_new \<and> retry_count stn = retry_count Human_new \<and>
                 motor_limits stn = [] \<and>
                 timers stn = [(now Human_new + 500 * (n + 1), Redispatch ?args)] \<and>
                 (\<forall>table. table \<noteq> [] \<longrightarrow>
                    (\<exists>st'. fire no_number
                             (motor_limit_list_result (Inr table) (stn\<lparr>ready := True\<rparr>))
                             = Inr st' \<and>
                           timers st' = [] \<and>
                           wire st' = wire Human_new @
                             (if target_list_of no_number ?args table = [] then []
                              else [move_joint_envelope (target_list_of no_number ?args table)])))"
    by blast
  from all [of 0] 1 have first: "wire st1 = []" "timers st1 = [(500, Redispatch ?args)]"
    using w by auto
  from all [of 3] obtain stn where n: "fire_n no_number 3 st1 = Inr stn" "wire stn = []"
    "timers stn = [(2000, Redispatch ?args)]"
    and t: "\<And>table. table \<noteq> [] \<Longrightarrow>
                    (\<exists>st'. fire no_number
                             (motor_limit_list_result (Inr table) (stn\<lparr>ready := True\<rparr>))
                             = Inr st' \<and>
                           timers st' = [] \<and>
                           wire st' = wire Human_new @
                             (if target_list_of no_number ?args table = [] then []
                              else [move_joint_envelope (target_list_of no_number ?args table)]))"
    using w by auto
  from t [of "[limit_1_left]"] obtain st' where last:
    "fire no_number (motor_limit_list_result (Inr [limit_1_left]) (stn\<lparr>ready := True\<rparr>)) = Inr st'"
    "wire st' = [move_joint_envelope [entry ''1'' (Num (Fin 10))]]"
    using w by (auto simp: target_list_50)
  have l: "motor_limits ?loaded \<noteq> [] \<and> ready ?loaded"
    by (simp add: ws_onopen_def console_out_def)
  have lw: "wire ?loaded = []" "motor_limits ?loaded = [limit_1_left]"
    by (simp_all add: ws_onopen_def console_out_def Human_new_def)
  from l gate [where st = ?loaded]
  have "\<exists>st'. run_task no_number (Redispatch ?args) ?loaded = Inr st' \<and>
          timers st' = timers ?loaded \<and>
          wire st' = wire ?loaded @
            (if target_list_of no_number ?args (motor_limits ?loaded) = [] then []
             else [move_joint_envelope (target_list_of no_number ?args (motor_limits ?loaded))])"
    by blast
  then have 2: "\<exists>st'. run_task no_number (Redispatch ?args) ?loaded = Inr st' \<and>
          wire st' = [move_joint_envelope [entry ''1'' (Num (Fin 10))]]"
    unfolding lw by (auto simp: target_list_50)
  from h 1 first n last l 2 show ?thesis
    by blast
qed

subsection \<open>C3: targets without a limit record are dropped\<close>



subsection \<open>C4: retries of a streaming send\<close>

text \<open>
  C4 (as amended). On an open channel \<open>websocket_send\<close> hands the envelope to the
  socket at once and sets the retry counter to 0. On a channel that is not open it sends
  nothing, adds 1 to the counter and sets a timer 1000 ms ahead that tries again, as long
  as the counter is not 5; with the counter at 5 it throws. So a send from a fresh
  counter on a channel that never opens, with no other timer pending, returns to its
  caller without an error; its retries run from the timers, 1000 ms apart, four of them
  fail in the same quiet way, and the fifth retry, which is the sixth attempt, throws
  inside its timer callback.
\<close>

theorem websocket_send_retry:
  "(ready st \<longrightarrow>
      websocket_send m st = Inr (st\<lparr>wire := wire st @ [m], retry_count := 0\<rparr>)) \<and>
   (\<not> ready st \<and> retry_count st \<noteq> 5 \<longrightarrow>
      (\<exists>st'. websocket_send m st = Inr st' \<and> wire st' = wire st \<and>
             retry_count st' = retry_count st + 1 \<and>
             timers st' = timers st @ [(now st + 1000, Resend m)])) \<and>
   (\<not> ready st \<and> retry_count st = 5 \<longrightarrow> websocket_send m st = Inl Max_retry_reached) \<and>
   (\<not> ready st \<and> retry_count st = 0 \<and> timers st = [] \<longrightarrow>
      (\<exists>st1. websocket_send m st = Inr st1 \<and>
         (\<forall>k \<le> 4. \<exists>stk. fire_n sn k st1 = Inr stk \<and> wire stk = wire st \<and>
                  retry_count stk = k + 1 \<and>
                  timers stk = [(now st + 1000 * (k + 1), Resend m)]) \<and>
         fire_n sn 5 st1 = Inl Max_retry_reached))"
proof (intro conjI impI)
  assume "ready st"
  then show "websocket_send m st = Inr (st\<lparr>wire := wire st @ [m], retry_count := 0\<rparr>)"
    by (rule websocket_send_open)
next
  assume "\<not> ready st \<and> retry_count st \<noteq> 5"
  then show "\<exists>st'. websocket_send m st = Inr st' \<and> wire st' = wire st \<and>
             retry_count st' = retry_count st + 1 \<and>
             timers st' = timers st @ [(now st + 1000, Resend m)]"
    by (simp add: websocket_send_closed)
next
  assume "\<not> ready st \<and> retry_count st = 5"
  then show "websocket_send m st = Inl Max_retry_reached"
    by (simp add: websocket_send_exhausted)
next
  assume a: "\<not> ready st \<and> retry_count st = 0 \<and> timers st = []"
  let ?st1 = "st\<lparr>retry_count := retry_count st + 1,
                  console := console st @ [Warn_retry (retry_count st + 1)],
                  timers := timers st @ [(now st + 1000, Resend m)]\<rparr>"
  have s: "websocket_send m st = Inr ?st1"
    using a by (simp add: websocket_send_closed)
  have loop: "\<exists>stk. fire_n sn k ?st1 = Inr stk \<and> wire stk = wire st \<and>
                  retry_count stk = k + 1 \<and>
                  timers stk = [(now st + 1000 * (k + 1), Resend m)]" if "k \<le> 4" for k
  proof -
    have "\<exists>s'. fire_n sn k ?st1 = Inr s' \<and> \<not> ready s' \<and> wire s' = wire ?st1 \<and>
        motor_limits s' = motor_limits ?st1 \<and>
        retry_count s' = retry_count ?st1 + k \<and>
        timers s' = [(now st + 1000 + 1000 * k, Resend m)] \<and> now s' \<le> now st + 1000 + 1000 * k"
      using a that by (intro resend_loop) simp_all
    then show ?thesis using a by auto
  qed
  have last: "fire_n sn (Suc 4) ?st1 = Inl Max_retry_reached"
    using a by (intro resend_exhausts [where d = "now st + 1000"]) simp_all
  show "\<exists>st1. websocket_send m st = Inr st1 \<and>
         (\<forall>k \<le> 4. \<exists>stk. fire_n sn k st1 = Inr stk \<and> wire stk = wire st \<and>
                  retry_count stk = k + 1 \<and>
                  timers stk = [(now st + 1000 * (k + 1), Resend m)]) \<and>
         fire_n sn 5 st1 = Inl Max_retry_reached"
    using s loop last by (simp add: eval_nat_numeral)
qed

text \<open>
  C4, counterexample to the claim as stated: the error of the sixth attempt does not
  reach the caller of the send. On a new connection, whose channel is not open, the call
  returns without an error, and so do the first four timer callbacks; the error comes out
  of the fifth callback, which the event loop runs long after the caller's call has
  returned.
\<close>

theorem websocket_send_error_in_timer:
  "\<not> isl (websocket_send example_envelope Human_new) \<and>
   \<not> isl (and_then (websocket_send example_envelope Human_new) (fire_n no_number 4)) \<and>
   and_then (websocket_send example_envelope Human_new) (fire_n no_number 5)
     = Inl Max_retry_reached"
proof -
  let ?st1 = "Human_new\<lparr>retry_count := 1, console := console Human_new @ [Warn_retry 1],
                       timers := [(1000, Resend example_envelope)]\<rparr>"
  have s: "websocket_send example_envelope Human_new = Inr ?st1"
    by (simp add: websocket_send_closed Human_new_def)
  have c: "\<not> ready ?st1" "timers ?st1 = [(1000, Resend example_envelope)]" "now ?st1 \<le> 1000"
    "retry_count ?st1 + 4 \<le> 5" "retry_count ?st1 + 4 = 5"
    by (simp_all add: Human_new_def)
  from resend_loop [OF c(1) c(2) c(3) c(4), of no_number]
  have 4: "\<not> isl (fire_n no_number 4 ?st1)"
    by auto
  from resend_exhausts [OF c(1) c(2) c(3) c(5), of no_number]
  have 5: "fire_n no_number 5 ?st1 = Inl Max_retry_reached"
    by (simp add: eval_nat_numeral)
  show ?thesis
    unfolding s using 4 5 by simp
qed

text \<open>
  C4, witness: the three cases of a single call (channel open; channel not open and the
  counter at 0; channel not open and the counter at 5) and the run of the retries on a
  new connection.
\<close>

theorem websocket_send_retry_witness:
  "ready (ws_onopen Human_new) \<and>
   websocket_send example_envelope (ws_onopen Human_new) =
     Inr ((ws_onopen Human_new)\<lparr>wire := [example_envelope], retry_count := 0\<rparr>) \<and>
   \<not> ready Human_new \<and> retry_count Human_new = 0 \<and> timers Human_new = [] \<and>
   (\<exists>st1. websocket_send example_envelope Human_new = Inr st1 \<and>
          fire_n no_number 5 st1 = Inl Max_retry_reached) \<and>
   retry_count (Human_new\<lparr>retry_count := 5\<rparr>) = 5 \<and>
   websocket_send example_envelope (Human_new\<lparr>retry_count := 5\<rparr>) = Inl Max_retry_reached"
proof -
  have r: "ready (ws_onopen Human_new)"
    by (simp add: ws_onopen_def console_out_def)
  have c: "\<not> ready Human_new \<and> retry_count Human_new = 0 \<and> timers Human_new = []"
    by (simp add: Human_new_def)
  have w: "wire (ws_onopen Human_new) = []"
    by (simp add: ws_onopen_def console_out_def Human_new_def)
  have e: "\<not> ready (Human_new\<lparr>retry_count := 5\<rparr>) \<and> retry_count (Human_new\<lparr>retry_count := 5\<rparr>) = 5"
    by (simp add: Human_new_def)
  from r w websocket_send_retry [of "ws_onopen Human_new" example_envelope no_number]
  have 1: "websocket_send example_envelope (ws_onopen Human_new) =
     Inr ((ws_onopen Human_new)\<lparr>wire := [example_envelope], retry_count := 0\<rparr>)"
    by simp
  from c websocket_send_retry [of Human_new example_envelope no_number]
  have 2: "\<exists>st1. websocket_send example_envelope Human_new = Inr st1 \<and>
          fire_n no_number 5 st1 = Inl Max_retry_reached"
    by blast
  from e websocket_send_retry [of "Human_new\<lparr>retry_count := 5\<rparr>" example_envelope no_number]
  have 3: "websocket_send example_envelope (Human_new\<lparr>retry_count := 5\<rparr>) = Inl Max_retry_reached"
    by blast
  show ?thesis using r c e 1 2 3 by blast
qed

subsection \<open>C5: what cover_param returns\<close>

text \<open>
  C5. For thresholds \<open>mn \<le> mx\<close>, \<open>cover_param\<close> returns \<open>mn\<close> when the value is
  below \<open>mn\<close>, \<open>mx\<close> when it is above \<open>mx\<close>, and the value itself otherwise; for an
  undefined value it returns 0 clamped in the same way.
\<close>

theorem cover_param_clamp:
  "num_le mn mx \<Longrightarrow>
   snd (cover_param sn (Num v) name (Num mn) (Num mx)) =
     Num (if num_lt v mn then mn else if num_lt mx v then mx else v) \<and>
   snd (cover_param sn Undefined name (Num mn) (Num mx)) =
     Num (if num_lt (Fin 0) mn then mn else if num_lt mx (Fin 0) then mx else Fin 0)"
  by (simp add: cover_param_Undefined cover_param_Num)

text \<open>
  C5, witness: between -10 and 10, the value 99 gives 10 and an undefined value gives 0.
\<close>

theorem cover_param_clamp_witness:
  "num_le (Fin (-10)) (Fin 10) \<and>
   snd (cover_param (\<lambda>s. NaN) (Num (Fin 99)) ''angle'' (Num (Fin (-10))) (Num (Fin 10))) = Num (Fin 10) \<and>
   snd (cover_param (\<lambda>s. NaN) Undefined ''angle'' (Num (Fin (-10))) (Num (Fin 10))) = Num (Fin 0)"
proof -
  have h: "num_le (Fin (-10)) (Fin 10)"
    by (simp add: num_le_def)
  show ?thesis
    using h cover_param_clamp [OF h, of "\<lambda>s. NaN" "Fin 99" "''angle''"] by simp
qed

subsection \<open>C6: cover_param and the range\<close>

text \<open>
  C6. \<open>cover_param\<close> never throws: it is a total function. But for \<open>NaN\<close> it does
  not return a value in the range: both comparisons are false and \<open>NaN\<close> is returned
  as it came. (For the other numbers and for a value left out the result is in the range:
  \<open>cover_param_in_range\<close>.)
\<close>

theorem cover_param_NaN:
  "snd (cover_param sn (Num NaN) ''angle'' (Num (Fin (- 10))) (Num (Fin 10))) = Num NaN \<and>
   num_le (Fin (- 10)) (Fin 10) \<and>
   \<not> val_in_range (snd (cover_param sn (Num NaN) ''angle'' (Num (Fin (- 10))) (Num (Fin 10))))
        (Num (Fin (- 10))) (Num (Fin 10))"
  by (simp add: cover_param_def js_gt_def num_le_def in_range_def num_eq_def)

subsection \<open>C7: the fields of an outbound entry\<close>

text \<open>
  C7 (as amended). The entries of the envelope \<open>move_joint\<close> hands to
  \<open>websocket_send\<close> have no property \<open>min_angle\<close>, \<open>max_angle\<close> or \<open>ip\<close>.
  Their properties are \<open>no\<close>, \<open>orientation\<close> and \<open>angle\<close> and every other
  property of the limit record they were joined with; so they are those three and no
  other when the limit records have no properties but \<open>no\<close>, \<open>orientation\<close>,
  \<open>min_angle\<close>, \<open>max_angle\<close> and \<open>ip\<close>.
\<close>

theorem move_joint_entries_sanitized:
  assumes "motor_limits st \<noteq> []"
  shows "move_joint sn args st =
           (if target_list_of sn args (motor_limits st) = []
            then Inr (console_out [Log_motor_limits (motor_limits st)] st)
            else websocket_send (move_joint_envelope (target_list_of sn args (motor_limits st)))
                   (console_out (Log_motor_limits (motor_limits st)
                       # target_warnings sn args (motor_limits st)
                       @ [Log_target_list (target_list_of sn args (motor_limits st))]) st)) \<and>
         list_all2
           (\<lambda>e (m, l). e ''min_angle'' = None \<and> e ''max_angle'' = None \<and> e ''ip'' = None \<and>
              dom e = {''no'', ''orientation'', ''angle''} \<union>
                        (dom l - {''min_angle'', ''max_angle'', ''ip''}))
           (target_list_of sn args (motor_limits st)) (matched sn args (motor_limits st)) \<and>
         (list_all (\<lambda>l. dom l \<subseteq> limit_fields) (motor_limits st) \<longrightarrow>
            list_all (\<lambda>e. dom e = {''no'', ''orientation'', ''angle''})
              (target_list_of sn args (motor_limits st)))"
proof (intro conjI impI)
  show "move_joint sn args st =
           (if target_list_of sn args (motor_limits st) = []
            then Inr (console_out [Log_motor_limits (motor_limits st)] st)
            else websocket_send (move_joint_envelope (target_list_of sn args (motor_limits st)))
                   (console_out (Log_motor_limits (motor_limits st)
                       # target_warnings sn args (motor_limits st)
                       @ [Log_target_list (target_list_of sn args (motor_limits st))]) st))"
    using assms by (rule move_joint_loaded)
next
  show "list_all2
           (\<lambda>e (m, l). e ''min_angle'' = None \<and> e ''max_angle'' = None \<and> e ''ip'' = None \<and>
              dom e = {''no'', ''orientation'', ''angle''} \<union>
                        (dom l - {''min_angle'', ''max_angle'', ''ip''}))
           (target_list_of sn args (motor_limits st)) (matched sn args (motor_limits st))"
    unfolding target_list_of_matched list_all2_map1 list_all2_same
    by (intro ballI) (simp only: split_def clamp_motor_absent entry_dom_general simp_thms)
next
  assume a: "list_all (\<lambda>l. dom l \<subseteq> limit_fields) (motor_limits st)"
  show "list_all (\<lambda>e. dom e = {''no'', ''orientation'', ''angle''})
          (target_list_of sn args (motor_limits st))"
    unfolding list_all_iff
  proof
    fix e
    assume "e \<in> set (target_list_of sn args (motor_limits st))"
    then obtain m l where ml: "(m, l) \<in> set (matched sn args (motor_limits st))"
      and e: "e = snd (clamp_motor sn (motor_obj m ++ l))"
      by (auto simp: target_list_of_matched)
    from ml have "l \<in> set (motor_limits st)"
      by (simp add: matched_set)
    with a have "dom l \<subseteq> limit_fields"
      by (simp add: list_all_iff)
    then show "dom e = {''no'', ''orientation'', ''angle''}"
      unfolding e by (rule entry_dom)
  qed
qed

text \<open>
  C7, counterexample to the claim as stated: the limit record of joint 1 has one more
  property, \<open>name\<close>. The spread copies it into the joined record, none of the three
  \<open>delete\<close>s removes it, and the entry leaves the client with four properties.
\<close>

theorem move_joint_extra_property_sent:
  "map_sum id wire
     (move_joint no_number [target ''1'' (Num (Fin 99))]
        (motor_limit_list_result (Inr [limit_1_left_named]) (ws_onopen Human_new)))
     = Inr [move_joint_envelope [(entry ''1'' (Num (Fin 10)))(''name'' \<mapsto> Str ''elbow'')]] \<and>
   get ((entry ''1'' (Num (Fin 10)))(''name'' \<mapsto> Str ''elbow'')) ''name'' = Str ''elbow''"
  by (simp add: move_joint_loaded target_list_named websocket_send_open ws_onopen_def
      Human_new_def console_out_def get_upd)

text \<open>
  C7, witness: the batch of the example of C3 against the cache with the record of joint
  1, whose entries have the three properties only; and a target for joint 1 against the
  cache whose record has the property \<open>name\<close> as well.
\<close>

theorem move_joint_entries_sanitized_witness:
  "motor_limits (motor_limit_list_result (Inr [limit_1_left]) (ws_onopen Human_new)) \<noteq> [] \<and>
   list_all (\<lambda>l. dom l \<subseteq> limit_fields)
     (motor_limits (motor_limit_list_result (Inr [limit_1_left]) (ws_onopen Human_new))) \<and>
   target_list_of no_number [target ''1'' (Num (Fin 99)), target ''99'' (Num (Fin 5))]
     (motor_limits (motor_limit_list_result (Inr [limit_1_left]) (ws_onopen Human_new))) \<noteq> [] \<and>
   list_all (\<lambda>e. dom e = {''no'', ''orientation'', ''angle''})
     (target_list_of no_number [target ''1'' (Num (Fin 99)), target ''99'' (Num (Fin 5))]
        (motor_limits (motor_limit_list_result (Inr [limit_1_left]) (ws_onopen Human_new)))) \<and>
   motor_limits (motor_limit_list_result (Inr [limit_1_left_named]) (ws_onopen Human_new)) \<noteq> [] \<and>
   matched no_number [target ''1'' (Num (Fin 99))]
     (motor_limits (motor_limit_list_result (Inr [limit_1_left_named]) (ws_onopen Human_new)))
     \<noteq> [] \<and>
   list_all2
     (\<lambda>e (m, l). e ''min_angle'' = None \<and> e ''max_angle'' = None \<and> e ''ip'' = None \<and>
        dom e = {''no'', ''orientation'', ''angle''} \<union>
                  (dom l - {''min_angle'', ''max_angle'', ''ip''}))
     (target_list_of no_number [target ''1'' (Num (Fin 99))]
        (motor_limits (motor_limit_list_result (Inr [limit_1_left_named]) (ws_onopen Human_new))))
     (matched no_number [target ''1'' (Num (Fin 99))]
        (motor_limits (motor_limit_list_result (Inr [limit_1_left_named]) (ws_onopen Human_new))))"
proof -
  let ?st = "motor_limit_list_result (Inr [limit_1_left]) (ws_onopen Human_new)"
  let ?named = "motor_limit_list_result (Inr [limit_1_left_named]) (ws_onopen Human_new)"
  let ?args = "[target ''1'' (Num (Fin 99)), target ''99'' (Num (Fin 5))]"
  have l: "motor_limits ?st = [limit_1_left]" "motor_limits ?named = [limit_1_left_named]"
    by simp_all
  have ne: "motor_limits ?st \<noteq> []" "motor_limits ?named \<noteq> []"
    by simp_all
  have d: "list_all (\<lambda>l. dom l \<subseteq> limit_fields) (motor_limits ?st)"
    by (simp add: limit_1_left_dom)
  have t: "target_list_of no_number ?args (motor_limits ?st) \<noteq> []"
    by (simp only: l target_list_99) simp
  have m: "matched no_number [target ''1'' (Num (Fin 99))] (motor_limits ?named) \<noteq> []"
    by (simp only: l matched_named) simp
  note a = move_joint_entries_sanitized [OF ne(1), of no_number ?args]
  note b = move_joint_entries_sanitized [OF ne(2), of no_number "[target ''1'' (Num (Fin 99))]"]
  from mp [OF conjunct2 [OF conjunct2 [OF a]] d]
  have 1: "list_all (\<lambda>e. dom e = {''no'', ''orientation'', ''angle''})
             (target_list_of no_number ?args (motor_limits ?st))" .
  note 2 = conjunct1 [OF conjunct2 [OF b]]
  show ?thesis
    by (intro conjI ne d t 1 m 2)
qed

subsection \<open>C8: one limit record for each key\<close>

text \<open>
  C8 (as amended). The cache is the table as the robot sent it, records with the same key
  included, and neither a dispatch nor a send nor a timer changes it. A target puts one
  entry into the outbound batch for every record of the cache that its key matches; when
  the keys of the table are strings and no two records have the same key, that is at most
  one entry for each target.
\<close>

theorem limit_cache_as_received:
  "motor_limits (motor_limit_list_result (Inr table) st) = table \<and>
   (move_joint sn args st = Inr st' \<longrightarrow> motor_limits st' = motor_limits st) \<and>
   (websocket_send message st = Inr st' \<longrightarrow> motor_limits st' = motor_limits st) \<and>
   (fire sn st = Inr st' \<longrightarrow> motor_limits st' = motor_limits st) \<and>
   length (target_list_of sn [m] table) =
     length (filter (same_joint sn (motor_obj m)) table) \<and>
   (list_all string_keyed table \<and> distinct (map joint_key table) \<longrightarrow>
      length (target_list_of sn [m] table) \<le> 1 \<and>
      length (target_list_of sn args table) \<le> length args)"
  using matches_le_1 [of table sn m] matched_length_le [of table sn args]
  by (auto simp: target_list_of_length matched_single
      dest: move_joint_limits websocket_send_limits fire_limits)

text \<open>
  C8, counterexample to the claim as stated: a table with two records for (1, left) is
  stored as it is, and one target for (1, left) leaves the client as two entries, one
  clamped by each record.
\<close>

theorem limit_cache_duplicate_key:
  "motor_limits (motor_limit_list_result (Inr [limit_1_left, limit_1_left_narrow]) Human_new)
     = [limit_1_left, limit_1_left_narrow] \<and>
   joint_key limit_1_left = joint_key limit_1_left_narrow \<and>
   map_sum id wire
     (move_joint no_number [target ''1'' (Num (Fin 99))]
        (motor_limit_list_result (Inr [limit_1_left, limit_1_left_narrow]) (ws_onopen Human_new)))
     = Inr [move_joint_envelope [entry ''1'' (Num (Fin 10)), entry ''1'' (Num (Fin 5))]]"
proof (intro conjI)
  show "motor_limits (motor_limit_list_result (Inr [limit_1_left, limit_1_left_narrow]) Human_new)
     = [limit_1_left, limit_1_left_narrow]"
    by simp
  show "joint_key limit_1_left = joint_key limit_1_left_narrow"
    by (simp add: joint_key_def limit_1_left_def limit_1_left_narrow_def get_upd)
  show "map_sum id wire
     (move_joint no_number [target ''1'' (Num (Fin 99))]
        (motor_limit_list_result (Inr [limit_1_left, limit_1_left_narrow]) (ws_onopen Human_new)))
     = Inr [move_joint_envelope [entry ''1'' (Num (Fin 10)), entry ''1'' (Num (Fin 5))]]"
    by (simp add: move_joint_loaded target_list_two_records websocket_send_open ws_onopen_def
        Human_new_def console_out_def)
qed

text \<open>
  C8, witness: a table with the records of (1, left) and (2, left), two string keys that
  differ. A batch for the joints 1, 2 and 99 gives two entries, one for each of the first
  two targets. The cache holds that table after a dispatch that sends them, after a send
  on the channel that is not open, which sets a timer, and after the run of a timer that
  had waited for the table and now sends.
\<close>

theorem limit_cache_as_received_witness:
  "list_all string_keyed [limit_1_left, limit_2_left] \<and>
   distinct (map joint_key [limit_1_left, limit_2_left]) \<and>
   length (target_list_of no_number [target ''2'' (Num (Fin 50))] [limit_1_left, limit_2_left])
     \<le> 1 \<and>
   length (target_list_of no_number
             [target ''1'' (Num (Fin 99)), target ''2'' (Num (Fin 50)), target ''99'' (Num (Fin 5))]
             [limit_1_left, limit_2_left]) \<le> 3 \<and>
   (\<exists>st'. move_joint no_number
            [target ''1'' (Num (Fin 99)), target ''2'' (Num (Fin 50)), target ''99'' (Num (Fin 5))]
            (motor_limit_list_result (Inr [limit_1_left, limit_2_left]) (ws_onopen Human_new))
            = Inr st' \<and>
          wire st' = [move_joint_envelope [entry ''1'' (Num (Fin 10)), entry ''2'' (Num (Fin 20))]] \<and>
          motor_limits st' = [limit_1_left, limit_2_left]) \<and>
   (\<exists>st'. websocket_send example_envelope
            (motor_limit_list_result (Inr [limit_1_left, limit_2_left]) Human_new) = Inr st' \<and>
          timers st' = [(1000, Resend example_envelope)] \<and>
          motor_limits st' = [limit_1_left, limit_2_left]) \<and>
   (\<exists>st1 st'.
      move_joint no_number
        [target ''1'' (Num (Fin 99)), target ''2'' (Num (Fin 50)), target ''99'' (Num (Fin 5))]
        Human_new = Inr st1 \<and>
      timers st1 \<noteq> [] \<and>
      fire no_number
        (motor_limit_list_result (Inr [limit_1_left, limit_2_left]) (st1\<lparr>ready := True\<rparr>))
        = Inr st' \<and>
      wire st' = [move_joint_envelope [entry ''1'' (Num (Fin 10)), entry ''2'' (Num (Fin 20))]] \<and>
      motor_limits st' = [limit_1_left, limit_2_left])"
proof -
  let ?T = "[limit_1_left, limit_2_left]"
  let ?args = "[target ''1'' (Num (Fin 99)), target ''2'' (Num (Fin 50)), target ''99'' (Num (Fin 5))]"
  let ?open = "motor_limit_list_result (Inr ?T) (ws_onopen Human_new)"
  let ?closed = "motor_limit_list_result (Inr ?T) Human_new"
  have k: "list_all string_keyed ?T \<and> distinct (map joint_key ?T)"
    using two_keys_distinct by simp
  from k limit_cache_as_received
         [where table = ?T and sn = no_number and m = "target ''2'' (Num (Fin 50))" and args = ?args]
  have "length (target_list_of no_number [target ''2'' (Num (Fin 50))] ?T) \<le> 1 \<and>
           length (target_list_of no_number ?args ?T) \<le> length ?args"
    by blast
  then have 1: "length (target_list_of no_number [target ''2'' (Num (Fin 50))] ?T) \<le> 1"
    "length (target_list_of no_number ?args ?T) \<le> 3"
    by simp_all
  \<comment> \<open>a dispatch on the populated cache, channel open\<close>
  have o: "motor_limits ?open = ?T" "ready ?open" "wire ?open = []"
    by (simp_all add: ws_onopen_def console_out_def Human_new_def)
  from move_joint_open [of ?open no_number ?args] o
  obtain s2 where s2: "move_joint no_number ?args ?open = Inr s2"
    "wire s2 = [move_joint_envelope [entry ''1'' (Num (Fin 10)), entry ''2'' (Num (Fin 20))]]"
    by (auto simp: target_list_two_keys)
  from s2(1) limit_cache_as_received
         [where sn = no_number and args = ?args and st = ?open and st' = s2]
  have 2: "motor_limits s2 = ?T"
    using o(1) by simp
  \<comment> \<open>a send on the populated cache, channel not open\<close>
  have c: "motor_limits ?closed = ?T" "\<not> ready ?closed" "retry_count ?closed \<noteq> 5"
    "timers ?closed = []" "now ?closed = 0"
    by (simp_all add: Human_new_def)
  obtain s3 where s3: "websocket_send example_envelope ?closed = Inr s3"
    "timers s3 = [(1000, Resend example_envelope)]"
    using websocket_send_closed [OF c(2) c(3), of example_envelope] c(4) c(5) by simp
  from s3(1) limit_cache_as_received
         [where message = example_envelope and st = ?closed and st' = s3]
  have 3: "motor_limits s3 = ?T"
    using c(1) by simp
  \<comment> \<open>a timer that runs on the populated cache\<close>
  let ?st1 = "setTimeout (Redispatch ?args) 500 (console_out [Log_motor_limits []] Human_new)"
  have w: "move_joint no_number ?args Human_new = Inr ?st1"
    by (simp add: move_joint_waiting Human_new_def)
  have st1: "motor_limits ?st1 = []" "timers ?st1 = [(500, Redispatch ?args)]" "wire ?st1 = []"
    by (simp_all add: setTimeout_def console_out_def Human_new_def)
  have ne: "?T \<noteq> []" by simp
  from redispatch_loaded [OF st1(1) st1(2) ne, of no_number]
  obtain s4 where s4:
    "fire no_number (motor_limit_list_result (Inr ?T) (?st1\<lparr>ready := True\<rparr>)) = Inr s4"
    "wire s4 = [move_joint_envelope [entry ''1'' (Num (Fin 10)), entry ''2'' (Num (Fin 20))]]"
    using st1(3) by (auto simp: target_list_two_keys)
  from s4(1) limit_cache_as_received
         [where sn = no_number and st' = s4
            and st = "motor_limit_list_result (Inr ?T) (?st1\<lparr>ready := True\<rparr>)"]
  have 4: "motor_limits s4 = ?T"
    by simp
  have t: "timers ?st1 \<noteq> []"
    using st1(2) by simp
  show ?thesis
    by (intro conjI exI [of _ s2] exI [of _ s3] exI [of _ ?st1] exI [of _ s4])
       (rule two_keys_distinct 1 s2 2 s3 3 w t s4 4)+
qed

subsection \<open>C9: the timeout of a request\<close>

text \<open>
  C9 (as amended). \<open>http_request\<close> makes one request and returns its outcome: the
  endpoint has received one request more, whatever the outcome, so nothing is retried. A
  configuration with no \<open>timeout\<close> of its own is sent with the timeout 5000, and a
  request with it to an endpoint that never answers fails after 5000 ms with a timeout
  error, which is the result the caller gets; so it is for the methods of the library,
  whose configurations have none. A positive \<open>timeout\<close> in the configuration takes
  the place of the 5000.
\<close>

theorem http_request_timeout:
  "http_request baseUrl config net n =
     axios_request
       ([''timeout'' \<mapsto> Cfg_num (Fin 5000), ''baseURL'' \<mapsto> Cfg_str baseUrl] ++ config) net n \<and>
   snd (http_request baseUrl config net n) = Suc n \<and>
   (config ''timeout'' = None \<longrightarrow>
      ([''timeout'' \<mapsto> Cfg_num (Fin 5000), ''baseURL'' \<mapsto> Cfg_str baseUrl] ++ config) ''timeout''
        = Some (Cfg_num (Fin 5000))) \<and>
   (config ''timeout'' = None \<and> net n = Never_responds \<longrightarrow>
      http_request baseUrl config net n = (Settles 5000 (Inl Timeout_error), Suc n)) \<and>
   (config ''timeout'' = Some (Cfg_num (Fin t)) \<and> 0 < t \<and> net n = Never_responds \<longrightarrow>
      http_request baseUrl config net n = (Settles t (Inl Timeout_error), Suc n)) \<and>
   (net n = Never_responds \<longrightarrow>
      get_motor_limit_list baseUrl net n = (Settles 5000 (Inl Timeout_error), Suc n) \<and>
      start baseUrl net n = (Settles 5000 (Inl Timeout_error), Suc n) \<and>
      stop baseUrl net n = (Settles 5000 (Inl Timeout_error), Suc n))"
proof (intro conjI)
  show "http_request baseUrl config net n =
     axios_request
       ([''timeout'' \<mapsto> Cfg_num (Fin 5000), ''baseURL'' \<mapsto> Cfg_str baseUrl] ++ config) net n"
    by (simp add: http_request_def)
  show "config ''timeout'' = None \<longrightarrow>
      ([''timeout'' \<mapsto> Cfg_num (Fin 5000), ''baseURL'' \<mapsto> Cfg_str baseUrl] ++ config) ''timeout''
        = Some (Cfg_num (Fin 5000))"
    by (simp add: map_add_def)
qed (simp_all add: http_request_eq request_timeout_def get_motor_limit_list_def start_def
      stop_def)

text \<open>
  C9, counterexample to the claim as stated: a configuration with the timeout 100. The
  spread puts it in the place of the 5000, and the request to an endpoint that never
  answers fails after 100 ms.
\<close>

theorem http_request_own_timeout:
  "([''timeout'' \<mapsto> Cfg_num (Fin 5000), ''baseURL'' \<mapsto> Cfg_str ''http://127.0.0.1:8001'']
      ++ hasty_config) ''timeout'' = Some (Cfg_num (Fin 100)) \<and>
   silent 0 = Never_responds \<and>
   http_request ''http://127.0.0.1:8001'' hasty_config silent 0
     = (Settles 100 (Inl Timeout_error), 1)"
  by (simp add: http_request_eq request_timeout_def hasty_config_def silent_def map_add_def)

text \<open>
  C9, witness: an endpoint that never answers the first request and would answer the
  second at once. The requests of three methods of the library and a request with another
  configuration without timeout fail after 5000 ms with a timeout error, the endpoint
  having received one request; the request with the timeout 100 fails after 100 ms.
\<close>

theorem http_request_timeout_witness:
  "silent_once 0 = Never_responds \<and>
   get_motor_limit_list ''http://127.0.0.1:8001'' silent_once 0
     = (Settles 5000 (Inl Timeout_error), 1) \<and>
   start ''http://127.0.0.1:8001'' silent_once 0 = (Settles 5000 (Inl Timeout_error), 1) \<and>
   stop ''http://127.0.0.1:8001'' silent_once 0 = (Settles 5000 (Inl Timeout_error), 1) \<and>
   [''method'' \<mapsto> Cfg_str ''POST'', ''url'' \<mapsto> Cfg_str ''/robot/stand''] ''timeout'' = None \<and>
   http_request ''http://127.0.0.1:8001''
     [''method'' \<mapsto> Cfg_str ''POST'', ''url'' \<mapsto> Cfg_str ''/robot/stand''] silent_once 0
     = (Settles 5000 (Inl Timeout_error), 1) \<and>
   hasty_config ''timeout'' = Some (Cfg_num (Fin 100)) \<and>
   http_request ''http://127.0.0.1:8001'' hasty_config silent_once 0
     = (Settles 100 (Inl Timeout_error), 1)"
proof -
  let ?url = "''http://127.0.0.1:8001''"
  let ?stand = "[''method'' \<mapsto> Cfg_str ''POST'', ''url'' \<mapsto> Cfg_str ''/robot/stand'']"
  have s: "silent_once 0 = Never_responds"
    by (simp add: silent_once_def)
  have n: "?stand ''timeout'' = None"
    by simp
  have h: "hasty_config ''timeout'' = Some (Cfg_num (Fin 100))" "(0::real) < 100"
    by (simp_all add: hasty_config_def)
  note t = http_request_timeout [where baseUrl = ?url and net = silent_once and n = 0]
  from s t [where config = ?stand and t = 1]
  have 1: "get_motor_limit_list ?url silent_once 0 = (Settles 5000 (Inl Timeout_error), Suc 0)"
    "start ?url silent_once 0 = (Settles 5000 (Inl Timeout_error), Suc 0)"
    "stop ?url silent_once 0 = (Settles 5000 (Inl Timeout_error), Suc 0)"
    by blast+
  from s n t [where config = ?stand and t = 1]
  have 2: "http_request ?url ?stand silent_once 0 = (Settles 5000 (Inl Timeout_error), Suc 0)"
    by blast
  from s h t [where config = hasty_config and t = 100]
  have 3: "http_request ?url hasty_config silent_once 0 = (Settles 100 (Inl Timeout_error), Suc 0)"
    by blast
  show ?thesis
    using s n h(1) 1 2 3 by simp
qed

subsection \<open>C10: motor numbers outside 0 to 8\<close>

text \<open>
  C10. The test \<open>parseInt(no) > 8\<close> is all that keeps a command back
  (\<open>motor_above_8\<close>). A motor number below 0 passes it, and so does a string that is
  no number, for which \<open>parseInt\<close> is \<open>NaN\<close>: for both the envelope goes out on the
  open channel.
\<close>

theorem motor_outside_0_8_sent:
  "parseInt ''-1'' = Fin (- 1) \<and>
   map_sum id wire (enable_motor ''-1'' ''left'' (ws_onopen Human_new))
     = Inr [\<lparr>command = ''enable_motor'', data = Command_obj (motor_ref ''-1'' ''left'')\<rparr>] \<and>
   map_sum id wire (disable_motor ''-1'' ''left'' (ws_onopen Human_new))
     = Inr [\<lparr>command = ''disable_motor'', data = Command_obj (motor_ref ''-1'' ''left'')\<rparr>] \<and>
   parseInt ''abc'' = NaN \<and>
   map_sum id wire (enable_motor ''abc'' ''left'' (ws_onopen Human_new))
     = Inr [\<lparr>command = ''enable_motor'', data = Command_obj (motor_ref ''abc'' ''left'')\<rparr>] \<and>
   map_sum id wire (disable_motor ''abc'' ''left'' (ws_onopen Human_new))
     = Inr [\<lparr>command = ''disable_motor'', data = Command_obj (motor_ref ''abc'' ''left'')\<rparr>]"
  by (simp add: parseInt_examples enable_motor_def disable_motor_def websocket_send_open
      ws_onopen_def console_out_def Human_new_def)

end
